theory Spec2Isabelle
  imports Complex_Main "HOL-Library.Word"
begin

section \<open>Data model\<close>

text \<open>
  The solver works on \<open>double\<close> values and on dense Armadillo matrices. A \<open>double\<close> is
  modelled as a real number, and its rounding is not modelled. Underflow and overflow are
  modelled in the acceptance test of \<open>run_MC\<close>, which squares the wavefunction (\<open>fl\<close>
  below), and the final averages of \<open>run_MC\<close>, whose divisor can be zero, are written out
  case by case (\<open>fdiv\<close>). Elsewhere they are not modelled: the energies and their sums are
  real numbers, so a sum that overflows in the machine, as after \<open>V_int\<close> has returned the
  largest \<open>double\<close>, is a number here, and a quotient by zero in \<open>E_local\<close> is zero where
  the machine gives an infinity or not a number. An \<open>int\<close> is a mathematical integer; the one
  product that can leave the range of an \<open>int\<close>, \<open>n_cycles * n_particles\<close>, wraps around. The
  particle count, a non-negative \<open>int\<close> that sizes the matrices, is a natural number.

  A matrix \<open>arma::mat\<close> is a function from (row, column) to its element; the source
  reads and writes it as \<open>M(r, c)\<close> and never resizes it.
\<close>

type_synonym mat = "nat \<times> nat \<Rightarrow> real"

definition zeros :: mat where
  "zeros = (\<lambda>rc. 0)"

text \<open>
  Modelled from the spec: the header that declares the enumerations, \<open>VMCConfiguration\<close>
  and \<open>Results\<close> is not among the sources. The constructors and fields below are the ones
  the code names; the two enumerations with the values \<open>ON\<close> and \<open>OFF\<close> get distinct
  constructor names. The code uses a \<open>Dimensions\<close> value as a row count and a loop bound
  (\<open>dim_val\<close>), and the spec lists the dimensionalities 1, 2 and 3.
\<close>

datatype HOType = SYMMETRIC | ELLIPTICAL

datatype InteractionType = InteractionON | InteractionOFF

datatype AnalyticAcceleration = AnalyticON | AnalyticOFF

datatype Dimensions = DIM_1 | DIM_2 | DIM_3

fun dim_val :: "Dimensions \<Rightarrow> nat" where
  "dim_val DIM_1 = 1"
| "dim_val DIM_2 = 2"
| "dim_val DIM_3 = 3"

record VMCConfiguration =
  ho_type :: HOType
  interaction :: InteractionType
  acceleration :: AnalyticAcceleration
  dims :: Dimensions
  n_particles :: nat
  omega_ho :: real
  omega_z :: real
  a :: real
  h :: real
  h2 :: real
  step_length :: real

text \<open>
  The solver object: its configuration, the variational parameters \<open>_alpha\<close> and \<open>_beta\<close>,
  and the distance matrix \<open>dist\<close> (here \<open>dist_mat\<close>). The members \<open>R_old\<close> and \<open>R_new\<close> are
  shadowed by the locals of \<open>run_MC\<close> and never read. The constructor fills the distance
  matrix with zeros and leaves \<open>_alpha\<close> and \<open>_beta\<close> as they are: \<open>al\<close> and \<open>be\<close> below.
\<close>

record VMCSolver =
  config :: VMCConfiguration
  alpha :: real
  beta :: real
  dist_mat :: mat

definition VMCSolver_new :: "VMCConfiguration \<Rightarrow> real \<Rightarrow> real \<Rightarrow> VMCSolver" where
  "VMCSolver_new cfg al be = \<lparr>config = cfg, alpha = al, beta = be, dist_mat = zeros\<rparr>"

subsection \<open>Vectors\<close>

text \<open>Column \<open>i\<close> of a position matrix with \<open>dims\<close> rows, as \<open>R.col(i)\<close>.\<close>

definition col :: "VMCConfiguration \<Rightarrow> mat \<Rightarrow> nat \<Rightarrow> real list" where
  "col cfg R i = map (\<lambda>d. R (d, i)) [0..<dim_val (dims cfg)]"

definition vsub :: "real list \<Rightarrow> real list \<Rightarrow> real list" where
  "vsub u v = map2 (\<lambda>x y. x - y) u v"

definition dot :: "real list \<Rightarrow> real list \<Rightarrow> real" where
  "dot u v = (\<Sum>(x, y)\<leftarrow>zip u v. x * y)"

text \<open>\<open>arma::norm\<close> of a vector is its Euclidean norm.\<close>

definition norm2 :: "real list \<Rightarrow> real" where
  "norm2 v = sqrt (dot v v)"

section \<open>Distance cache\<close>

definition initialize_distance_matrix :: "VMCSolver \<Rightarrow> mat \<Rightarrow> VMCSolver" where
  "initialize_distance_matrix s R =
     s\<lparr>dist_mat :=
        fold (\<lambda>i D.
                fold (\<lambda>j D. D((i, j) := norm2 (vsub (col (config s) R i) (col (config s) R j))))
                     [i + 1..<n_particles (config s)] D)
             [0..<n_particles (config s)] (dist_mat s)\<rparr>"

definition update_distance_matrix :: "VMCSolver \<Rightarrow> nat \<Rightarrow> mat \<Rightarrow> VMCSolver" where
  "update_distance_matrix s particle R =
     (let D1 = fold (\<lambda>other D.
                       D((particle, other) :=
                           norm2 (vsub (col (config s) R particle) (col (config s) R other))))
                    [particle + 1..<n_particles (config s)] (dist_mat s);
          D2 = fold (\<lambda>other D.
                       D((other, particle) :=
                           norm2 (vsub (col (config s) R other) (col (config s) R particle))))
                    [0..<particle] D1
      in s\<lparr>dist_mat := D2\<rparr>)"

text \<open>
  The distance the cache is meant to hold for the pair \<open>(i, j)\<close>, recomputed from the
  positions, and the cache invariant: every populated entry holds it.
\<close>

definition pair_dist :: "VMCConfiguration \<Rightarrow> mat \<Rightarrow> nat \<Rightarrow> nat \<Rightarrow> real" where
  "pair_dist cfg R i j = norm2 (vsub (col cfg R i) (col cfg R j))"

definition cache_consistent :: "VMCSolver \<Rightarrow> mat \<Rightarrow> bool" where
  "cache_consistent s R =
     (\<forall>i j. i < j \<and> j < n_particles (config s) \<longrightarrow> dist_mat s (i, j) = pair_dist (config s) R i j)"

text \<open>
  A read of the cache with the index pair put in (min, max) order, as the analytic local
  energy does: \<open>dist(std::min(k, j), std::max(k, j))\<close>.
\<close>

definition dist_at :: "VMCSolver \<Rightarrow> nat \<Rightarrow> nat \<Rightarrow> real" where
  "dist_at s i j = dist_mat s (min i j, max i j)"

text \<open>Every entry on or below the diagonal is zero.\<close>

definition lower_zero :: "mat \<Rightarrow> bool" where
  "lower_zero D = (\<forall>i j. \<not> i < j \<longrightarrow> D (i, j) = 0)"

section \<open>Potentials and the trial wavefunction\<close>

text \<open>
  A loop that can leave its function by \<open>return\<close> is a fold over a control value:
  \<open>Returned v\<close> once the function has returned \<open>v\<close>, \<open>Running acc\<close> while it runs.
\<close>

datatype ('r, 's) ctl = Returned 'r | Running 's

text \<open>\<open>std::numeric_limits<double>::max()\<close>, the largest finite \<open>double\<close>.\<close>

definition DBL_MAX :: real where
  "DBL_MAX = (2 ^ 53 - 1) * 2 ^ 971"

definition V_ext :: "VMCSolver \<Rightarrow> mat \<Rightarrow> real" where
  "V_ext s R =
     (let cfg = config s;
          pot = fold (\<lambda>i pot.
                  if ho_type cfg = ELLIPTICAL \<and> dims cfg = DIM_3
                  then pot + (omega_ho cfg * (R (0, i) * R (0, i) + R (1, i) * R (1, i))
                              + omega_z cfg * R (2, i) * R (2, i))
                  else pot + omega_ho cfg * dot (col cfg R i) (col cfg R i))
                [0..<n_particles cfg] 0
      in 0.5 * pot)"

definition V_int :: "VMCSolver \<Rightarrow> real" where
  "V_int s =
     (let cfg = config s in
      if interaction cfg = InteractionOFF then 0
      else case fold (\<lambda>i c.
                  fold (\<lambda>j c.
                      case c of
                        Returned v \<Rightarrow> Returned v
                      | Running u \<Rightarrow>
                          if dist_mat s (i, j) \<le> a cfg then Returned DBL_MAX else Running u)
                    [i + 1..<n_particles cfg] c)
                [0..<n_particles cfg] (Running ())
           of Returned v \<Rightarrow> v
            | Running u \<Rightarrow> 0)"

text \<open>
  The Jastrow factor. The quotient \<open>a / r_ij\<close> is computed only after the test
  \<open>r_ij <= a\<close> has failed, so with a radius that is not negative the divisor is positive.
\<close>

definition Psi_f :: "VMCSolver \<Rightarrow> real" where
  "Psi_f s =
     (let cfg = config s in
      if interaction cfg = InteractionOFF then 1
      else case fold (\<lambda>i c.
                  fold (\<lambda>j c.
                      case c of
                        Returned v \<Rightarrow> Returned v
                      | Running f \<Rightarrow>
                          (let r_ij = dist_mat s (i, j) in
                           if r_ij \<le> a cfg then Returned 0
                           else Running (f * (1 - a cfg / r_ij))))
                    [i + 1..<n_particles cfg] c)
                [0..<n_particles cfg] (Running 1)
           of Returned v \<Rightarrow> v
            | Running f \<Rightarrow> f)"

definition Psi_g :: "VMCSolver \<Rightarrow> mat \<Rightarrow> real" where
  "Psi_g s R =
     (let g = fold (\<lambda>i g. g + dot (col (config s) R i) (col (config s) R i))
                [0..<n_particles (config s)] 0
      in exp (- alpha s * g))"

definition Psi :: "VMCSolver \<Rightarrow> mat \<Rightarrow> real" where
  "Psi s R = Psi_g s R * Psi_f s"

section \<open>Local energy\<close>

text \<open>
  \<open>E_kinetic\<close> changes the position matrix it is given and, when the interaction is on,
  the distance matrix; both are returned next to the value. \<open>E_kinetic_body\<close> is the body
  of its inner loop for particle \<open>i\<close> and coordinate \<open>d\<close>.
\<close>

definition E_kinetic_body :: "nat \<Rightarrow> nat \<Rightarrow> real \<times> mat \<times> VMCSolver \<Rightarrow> real \<times> mat \<times> VMCSolver" where
  "E_kinetic_body i d = (\<lambda>(Ek, R, s).
     let cfg = config s;
         temp = R (d, i);
         R1 = R((d, i) := temp + h cfg);
         s1 = (if interaction cfg = InteractionON then update_distance_matrix s i R1 else s);
         Ek1 = Ek + Psi s1 R1;
         R2 = R1((d, i) := temp - h cfg);
         s2 = (if interaction cfg = InteractionON then update_distance_matrix s1 i R2 else s1);
         Ek2 = Ek1 + Psi s2 R2;
         R3 = R2((d, i) := temp);
         s3 = (if interaction cfg = InteractionON then update_distance_matrix s2 i R3 else s2)
     in (Ek2, R3, s3))"

definition E_kinetic_loop :: "VMCSolver \<Rightarrow> mat \<Rightarrow> real \<times> mat \<times> VMCSolver" where
  "E_kinetic_loop s R =
     (let cfg = config s;
          Ek0 = - 2 * real (n_particles cfg * dim_val (dims cfg)) * Psi s R
      in fold (\<lambda>i st. fold (\<lambda>d st. E_kinetic_body i d st) [0..<dim_val (dims cfg)] st)
              [0..<n_particles cfg] (Ek0, R, s))"

definition E_kinetic :: "VMCSolver \<Rightarrow> mat \<Rightarrow> real \<times> mat \<times> VMCSolver" where
  "E_kinetic s R =
     (let (Ek, R', s') = E_kinetic_loop s R
      in (- 0.5 * Ek * h2 (config s), R', s'))"

text \<open>Conversion of a \<open>double\<close> to \<open>int\<close>: the fractional part is discarded.\<close>

definition trunc_int :: "real \<Rightarrow> int" where
  "trunc_int x = (if 0 \<le> x then \<lfloor>x\<rfloor> else \<lceil>x\<rceil>)"

definition one_body_beta_term :: "VMCSolver \<Rightarrow> int" where
  "one_body_beta_term s =
     trunc_int (- (if dims (config s) = DIM_3 then 2 + beta s
                   else real (dim_val (dims (config s)))))"

definition r_k_skewed :: "VMCSolver \<Rightarrow> mat \<Rightarrow> nat \<Rightarrow> real list" where
  "r_k_skewed s R k =
     (let v = col (config s) R k in
      if dims (config s) = DIM_3 then v[2 := v ! 2 * beta s] else v)"

text \<open>
  The body of the loop over \<open>i\<close> inside the loop over \<open>j\<close> inside the loop over \<open>k\<close> of the
  analytic local energy; the iteration \<open>i = k\<close> is skipped.
\<close>

definition E_local_i :: "VMCSolver \<Rightarrow> mat \<Rightarrow> nat \<Rightarrow> nat \<Rightarrow> nat \<Rightarrow> real \<Rightarrow> real" where
  "E_local_i s R k j i E_L =
     (if i = k then E_L
      else
        let cfg = config s;
            r_k = col cfg R k;
            r_kj = vsub r_k (col cfg R j);
            r_kj_norm = dist_at s k j;
            r_kj_2 = r_kj_norm * r_kj_norm;
            r_ki = vsub r_k (col cfg R i);
            r_ki_norm = dist_at s k i;
            r_ki_2 = r_ki_norm * r_ki_norm
        in E_L + dot r_ki r_kj
                 * (a cfg * a cfg
                    / (r_ki_2 * r_kj_2 * (r_ki_norm - a cfg) * (r_kj_norm - a cfg))))"

text \<open>
  The body of the loop over \<open>j\<close>, on the pair (\<open>term\<close>, \<open>E_L\<close>); the iteration \<open>j = k\<close> is
  skipped.
\<close>

definition E_local_j :: "VMCSolver \<Rightarrow> mat \<Rightarrow> nat \<Rightarrow> nat \<Rightarrow> real list \<times> real \<Rightarrow> real list \<times> real" where
  "E_local_j s R k j = (\<lambda>(term, E_L).
     if j = k then (term, E_L)
     else
       let cfg = config s;
           r_kj = vsub (col cfg R k) (col cfg R j);
           r_kj_norm = dist_at s k j;
           r_kj_2 = r_kj_norm * r_kj_norm;
           term1 = map2 (\<lambda>t x. t + x * (a cfg / (r_kj_2 * (r_kj_norm - a cfg)))) term r_kj;
           E_L1 = E_L
                  + (a cfg * (a cfg - 2 * r_kj_norm)
                       / (r_kj_2 * (r_kj_norm - a cfg) * (r_kj_norm - a cfg))
                     + 2 * a cfg / (r_kj_2 * (r_kj_norm - a cfg)));
           E_L2 = fold (E_local_i s R k j) [0..<n_particles cfg] E_L1
       in (term1, E_L2))"

text \<open>
  The body of the loop over \<open>k\<close>. The vector \<open>term\<close> is created by \<open>arma::vec term(dims)\<close>
  and taken here to start as the zero vector.
\<close>

definition E_local_k :: "VMCSolver \<Rightarrow> mat \<Rightarrow> nat \<Rightarrow> real \<Rightarrow> real" where
  "E_local_k s R k E_L =
     (let cfg = config s;
          skewed = r_k_skewed s R k;
          E_L1 = E_L + 2 * alpha s
                       * (2 * alpha s * dot skewed skewed + real_of_int (one_body_beta_term s))
      in if interaction cfg = InteractionOFF then E_L1
         else
           let (term, E_L2) =
                 fold (E_local_j s R k) [0..<n_particles cfg]
                      (replicate (dim_val (dims cfg)) 0, E_L1)
           in E_L2 - 4 * alpha s * dot skewed term)"

text \<open>
  In the numeric mode the operands of \<open>E_kinetic(R) / Psi(R) + V_ext(R) + V_int()\<close> are
  evaluated here from left to right, on the state \<open>E_kinetic\<close> leaves.
\<close>

definition E_local :: "VMCSolver \<Rightarrow> mat \<Rightarrow> real \<times> mat \<times> VMCSolver" where
  "E_local s R =
     (if acceleration (config s) = AnalyticOFF
      then let (Ekin, R', s') = E_kinetic s R
           in (Ekin / Psi s' R' + V_ext s' R' + V_int s', R', s')
      else let E_L = fold (E_local_k s R) [0..<n_particles (config s)] 0
           in (V_ext s R + V_int s - 0.5 * E_L, R, s))"

section \<open>Metropolis sampler\<close>

text \<open>
  The process-wide generator \<open>rand_gen\<close> and the library's distributions. A call of a
  \<open>std::uniform_real_distribution(a, b)\<close> takes one value of the generator, scaled to a
  canonical number \<open>c\<close> with \<open>0 \<le> c < 1\<close>, and returns \<open>a + (b - a) * c\<close>. The generator is
  the sequence of the canonical numbers its next calls give; a call takes the head of the
  sequence. The code declares \<open>unif(0, 1)\<close> and \<open>centered(-0.5, 0.5)\<close>.
\<close>

typedef canon = "{c :: real. 0 \<le> c \<and> c < 1}"
  by (rule exI [of _ 0]) simp

type_synonym rand_gen = "nat \<Rightarrow> canon"

definition draw :: "rand_gen \<Rightarrow> real \<times> rand_gen" where
  "draw g = (Rep_canon (g 0), \<lambda>k. g (Suc k))"

definition uniform_real :: "real \<Rightarrow> real \<Rightarrow> rand_gen \<Rightarrow> real \<times> rand_gen" where
  "uniform_real lo hi g = (let (c, g') = draw g in (lo + (hi - lo) * c, g'))"

definition unif :: "rand_gen \<Rightarrow> real \<times> rand_gen" where
  "unif = uniform_real 0 1"

definition centered :: "rand_gen \<Rightarrow> real \<times> rand_gen" where
  "centered = uniform_real (- 0.5) 0.5"

text \<open>
  Modelled from the spec: the \<open>Results\<close> record is declared in a header that is not among
  the sources; its fields are, in the order \<open>run_MC\<close> fills them, the mean energy, the mean
  squared energy, the variance, the two parameters and the acceptance rate. The code names
  the fields \<open>E\<close>, \<open>E2\<close> and \<open>variance\<close>; the names of the other three are chosen here. A
  field computed by a division holds \<open>None\<close> when the divisor is zero: the \<open>double\<close> is then
  an infinity or not a number.
\<close>

record Results =
  E :: "real option"
  E2 :: "real option"
  variance :: "real option"
  res_alpha :: real
  res_beta :: real
  acceptance_rate :: "real option"

definition fdiv :: "real \<Rightarrow> real \<Rightarrow> real option" where
  "fdiv x y = (if y = 0 then None else Some (x / y))"

text \<open>
  The product of two \<open>int\<close> values, computed in 32 bits. The language leaves the overflow of
  a signed product undefined; the model takes the two's-complement wrap-around.
\<close>

definition int_mul :: "int \<Rightarrow> int \<Rightarrow> int" where
  "int_mul x y = sint (word_of_int x * word_of_int y :: 32 word)"

text \<open>The state of one run: the solver, the locals of \<open>run_MC\<close> and the generator.\<close>

record mc_state =
  sol :: VMCSolver
  R_old :: mat
  R_new :: mat
  E_sum :: real
  E2_sum :: real
  accepted_moves :: int
  gen :: rand_gen

text \<open>
  The random starting point: \<open>R_old(d, i) = R_new(d, i) = step_length * centered(rand_gen)\<close>.
  Every element of the two local matrices is assigned; the model starts them from \<open>zeros\<close>.
\<close>

definition initial_positions :: "VMCConfiguration \<Rightarrow> rand_gen \<Rightarrow> mat \<times> mat \<times> rand_gen" where
  "initial_positions cfg g =
     fold (\<lambda>i st.
             fold (\<lambda>d (Ro, Rn, g).
                     let (c, g') = centered g; v = step_length cfg * c
                     in (Ro((d, i) := v), Rn((d, i) := v), g'))
                  [0..<dim_val (dims cfg)] st)
          [0..<n_particles cfg] (zeros, zeros, g)"

definition run_MC_init :: "VMCSolver \<Rightarrow> rand_gen \<Rightarrow> mc_state" where
  "run_MC_init s g =
     (let (Ro, Rn, g') = initial_positions (config s) g
      in \<lparr>sol = initialize_distance_matrix s Ro, R_old = Ro, R_new = Rn,
          E_sum = 0, E2_sum = 0, accepted_moves = 0, gen = g'\<rparr>)"

text \<open>The trial move of particle \<open>i\<close>.\<close>

definition propose :: "nat \<Rightarrow> mc_state \<Rightarrow> mc_state" where
  "propose i st =
     (let cfg = config (sol st);
          (Rn, g') = fold (\<lambda>d (Rn, g).
                             let (c, g') = centered g
                             in (Rn((d, i) := R_old st (d, i) + step_length cfg * c), g'))
                          [0..<dim_val (dims cfg)] (R_new st, gen st)
      in st\<lparr>R_new := Rn, gen := g'\<rparr>)"

text \<open>
  The test \<open>u <= (Psi_new * Psi_new) / (Psi_old * Psi_old)\<close> is computed in \<open>double\<close>
  arithmetic, where the squares of small values underflow to zero and those of large values
  overflow. For this test a \<open>double\<close> is a real number, an infinity or not a number, and
  \<open>fl\<close> gives the \<open>double\<close> for the exact result \<open>x\<close> of an operation: an infinity from
  \<open>dbl_overflow\<close> on (the largest \<open>double\<close> plus half a unit in its last place), zero up to
  \<open>dbl_underflow\<close> (half the smallest \<open>double\<close> above zero), and \<open>x\<close> itself in between,
  where the rounding is not modelled. The sign of a zero is not modelled either: the
  divisor here is a square.
\<close>

datatype double = Fin real | PInf | NInf | NaN

definition dbl_overflow :: real where
  "dbl_overflow = 2 ^ 1024 - 2 ^ 970"

definition dbl_underflow :: real where
  "dbl_underflow = 1 / 2 ^ 1075"

definition fl :: "real \<Rightarrow> double" where
  "fl x = (if dbl_overflow \<le> x then PInf
           else if x \<le> - dbl_overflow then NInf
           else if \<bar>x\<bar> \<le> dbl_underflow then Fin 0
           else Fin x)"

text \<open>The quotient of two \<open>double\<close> values.\<close>

fun ddiv :: "double \<Rightarrow> double \<Rightarrow> double" where
  "ddiv NaN y = NaN"
| "ddiv x NaN = NaN"
| "ddiv (Fin x) (Fin y) =
     (if y = 0 then (if x = 0 then NaN else if 0 < x then PInf else NInf) else fl (x / y))"
| "ddiv (Fin x) PInf = Fin 0"
| "ddiv (Fin x) NInf = Fin 0"
| "ddiv PInf (Fin y) = (if 0 \<le> y then PInf else NInf)"
| "ddiv NInf (Fin y) = (if 0 \<le> y then NInf else PInf)"
| "ddiv PInf PInf = NaN"
| "ddiv PInf NInf = NaN"
| "ddiv NInf PInf = NaN"
| "ddiv NInf NInf = NaN"

text \<open>The comparison \<open>u <= r\<close> of a number with a \<open>double\<close>; it is false for not a number.\<close>

fun dle :: "real \<Rightarrow> double \<Rightarrow> bool" where
  "dle u (Fin r) = (u \<le> r)"
| "dle u PInf = True"
| "dle u NInf = False"
| "dle u NaN = False"

definition accept_test :: "real \<Rightarrow> real \<Rightarrow> real \<Rightarrow> bool" where
  "accept_test u Psi_new Psi_old =
     (let num = fl (Psi_new * Psi_new); den = fl (Psi_old * Psi_old)
      in dle u (ddiv num den))"

text \<open>Copy of column \<open>i\<close>: \<open>for d: To(d, i) = From(d, i)\<close>.\<close>

definition copy_col :: "VMCConfiguration \<Rightarrow> nat \<Rightarrow> mat \<Rightarrow> mat \<Rightarrow> mat" where
  "copy_col cfg i From To =
     fold (\<lambda>d To. To((d, i) := From (d, i))) [0..<dim_val (dims cfg)] To"

text \<open>The decision on the trial move of particle \<open>i\<close>, on the pair (\<open>Psi_old\<close>, state).\<close>

definition decide :: "nat \<Rightarrow> real \<times> mc_state \<Rightarrow> real \<times> mc_state" where
  "decide i = (\<lambda>(Psi_old, st).
     let cfg = config (sol st);
         s1 = update_distance_matrix (sol st) i (R_new st);
         Psi_new = Psi s1 (R_new st);
         (u, g') = unif (gen st)
     in if accept_test u Psi_new Psi_old
        then (Psi_new,
              st\<lparr>sol := s1, gen := g', accepted_moves := accepted_moves st + 1,
                 R_old := copy_col cfg i (R_new st) (R_old st)\<rparr>)
        else (Psi_old,
              st\<lparr>sol := update_distance_matrix s1 i (R_old st), gen := g',
                 R_new := copy_col cfg i (R_old st) (R_new st)\<rparr>))"

text \<open>
  The update of the averages after the decision. The energy, its square and the two sums
  are real numbers; the machine's sums can overflow.
\<close>

definition accumulate :: "mc_state \<Rightarrow> mc_state" where
  "accumulate st =
     (let (e, Rn, s') = E_local (sol st) (R_new st)
      in st\<lparr>sol := s', R_new := Rn, E_sum := E_sum st + e, E2_sum := E2_sum st + e * e\<rparr>)"

definition metro_step :: "nat \<Rightarrow> real \<times> mc_state \<Rightarrow> real \<times> mc_state" where
  "metro_step i = (\<lambda>(Psi_old, st).
     let (Psi_old', st') = decide i (Psi_old, propose i st)
     in (Psi_old', accumulate st'))"

text \<open>
  One cycle: \<open>Psi_old\<close> is computed, then every particle is moved in turn. \<open>cycle_upto k\<close> is
  the pair (\<open>Psi_old\<close>, state) of the cycle before the move of particle \<open>k\<close>.
\<close>

definition cycle_upto :: "nat \<Rightarrow> mc_state \<Rightarrow> real \<times> mc_state" where
  "cycle_upto k st = fold metro_step [0..<k] (Psi (sol st) (R_old st), st)"

definition cycle :: "mc_state \<Rightarrow> mc_state" where
  "cycle st = snd (cycle_upto (n_particles (config (sol st))) st)"

definition finish :: "int \<Rightarrow> mc_state \<Rightarrow> Results" where
  "finish n_cycles st =
     (let n = int_mul n_cycles (int (n_particles (config (sol st))));
          energy = fdiv (E_sum st) (real_of_int n);
          energy_squared = fdiv (E2_sum st) (real_of_int n);
          variance = (case (energy_squared, energy) of
                        (Some e2, Some e) \<Rightarrow> Some (e2 - e * e)
                      | _ \<Rightarrow> None);
          acceptance_rate = fdiv (real_of_int (accepted_moves st)) (real_of_int n)
      in \<lparr>E = energy, E2 = energy_squared, variance = variance,
          res_alpha = alpha (sol st), res_beta = beta (sol st),
          acceptance_rate = acceptance_rate\<rparr>)"

text \<open>The state after the loop over the cycles, \<open>for (cycle = 1; cycle <= n_cycles; ++cycle)\<close>.\<close>

definition run_MC_loop :: "VMCSolver \<Rightarrow> int \<Rightarrow> rand_gen \<Rightarrow> mc_state" where
  "run_MC_loop s n_cycles g = fold (\<lambda>c st. cycle st) [1..n_cycles] (run_MC_init s g)"

definition run_MC :: "VMCSolver \<Rightarrow> int \<Rightarrow> rand_gen \<Rightarrow> Results \<times> VMCSolver \<times> rand_gen" where
  "run_MC s n_cycles g =
     (let st = run_MC_loop s n_cycles g
      in (finish n_cycles st, sol st, gen st))"

section \<open>Variational sweep\<close>

text \<open>
  What is written to the stream: a string, a formatted \<open>double\<close> or a flush. The lines of
  the stream are counted by its newline characters; a formatted number holds none.
\<close>

datatype out_item = Str string | Dbl "real option" | Flush

fun newlines :: "out_item \<Rightarrow> nat" where
  "newlines (Str cs) = length (filter (\<lambda>c. c = CHR 0x0A) cs)"
| "newlines (Dbl x) = 0"
| "newlines Flush = 0"

definition count_lines :: "out_item list \<Rightarrow> nat" where
  "count_lines out = sum_list (map newlines out)"

definition header :: string where
  "header = ''# alpha beta <E> <E^2>'' @ [CHR 0x0A]"

text \<open>
  Modelled from the spec: \<open>arma::linspace\<close> belongs to a library that is not among the
  sources; the spec asks for a linearly spaced grid of a given count between a minimum and
  a maximum.
\<close>

definition linspace :: "real \<Rightarrow> real \<Rightarrow> nat \<Rightarrow> real list" where
  "linspace lo hi n =
     (if n = 1 then [hi]
      else map (\<lambda>k. lo + (hi - lo) * real k / real (n - 1)) [0..<n])"

text \<open>
  The test \<open>res.variance < best.variance\<close>. It is false when a variance is not a number; it
  is false also for a variance \<open>res.variance\<close> that is the positive infinity, the one infinity
  that \<open>energy_squared - energy * energy\<close> can be.
\<close>

definition variance_less :: "Results \<Rightarrow> Results \<Rightarrow> bool" where
  "variance_less r b =
     (case (variance r, variance b) of (Some x, Some y) \<Rightarrow> x < y | _ \<Rightarrow> False)"

text \<open>
  The state of the sweep. \<open>evaluated\<close> is a history of the records \<open>run_MC\<close> returned, in
  order; the source does not keep it.
\<close>

record vmc_state =
  v_sol :: VMCSolver
  v_gen :: rand_gen
  v_out :: "out_item list"
  best :: Results
  evaluated :: "Results list"

text \<open>
  The sweep calls \<open>run_MC\<close> for every grid point and uses nothing of it but the record
  returned. Its body is written over the function \<open>run\<close> it calls, so that what is proved of
  the sweep holds for \<open>run_MC\<close> as the machine computes it, with sums that overflow and
  energies that are not numbers; \<open>vmc\<close> is the sweep over the \<open>run_MC\<close> above.
\<close>

type_synonym run_fun = "VMCSolver \<Rightarrow> int \<Rightarrow> rand_gen \<Rightarrow> Results \<times> VMCSolver \<times> rand_gen"

definition vmc_point :: "run_fun \<Rightarrow> int \<Rightarrow> real \<Rightarrow> vmc_state \<Rightarrow> vmc_state" where
  "vmc_point run n_cycles be v =
     (let s = (v_sol v)\<lparr>beta := be\<rparr>;
          (res, s', g') = run s n_cycles (v_gen v);
          out' = v_out v @ [Dbl (Some (alpha s')), Str '' '', Dbl (Some (beta s')), Str '' '',
                            Dbl (E res), Str '' '', Dbl (E2 res), Str [CHR 0x0A]]
      in \<lparr>v_sol = s', v_gen = g', v_out = out',
          best = (if variance_less res (best v) then res else best v),
          evaluated = evaluated v @ [res]\<rparr>)"

text \<open>
  \<open>uninit\<close> is the content of the local \<open>Results best\<close> before its variance is set.
\<close>

definition vmc_with ::
  "run_fun \<Rightarrow> VMCSolver \<Rightarrow> int \<Rightarrow> out_item list \<Rightarrow> real \<Rightarrow> real \<Rightarrow> nat \<Rightarrow> real \<Rightarrow> real \<Rightarrow> nat
     \<Rightarrow> rand_gen \<Rightarrow> Results \<Rightarrow> vmc_state" where
  "vmc_with run s n_cycles out alpha_min alpha_max alpha_n beta_min beta_max beta_n g uninit =
     (let best0 = uninit\<lparr>variance := Some DBL_MAX\<rparr>;
          alphas = linspace alpha_min alpha_max alpha_n;
          betas = linspace beta_min beta_max beta_n;
          v0 = \<lparr>v_sol = s, v_gen = g, v_out = out @ [Str header], best = best0, evaluated = []\<rparr>;
          v = fold (\<lambda>al v. fold (vmc_point run n_cycles) betas
                               (v\<lparr>v_sol := (v_sol v)\<lparr>alpha := al\<rparr>\<rparr>))
                   alphas v0
      in v\<lparr>v_out := v_out v @ [Flush]\<rparr>)"

definition vmc ::
  "VMCSolver \<Rightarrow> int \<Rightarrow> out_item list \<Rightarrow> real \<Rightarrow> real \<Rightarrow> nat \<Rightarrow> real \<Rightarrow> real \<Rightarrow> nat
     \<Rightarrow> rand_gen \<Rightarrow> Results \<Rightarrow> vmc_state" where
  "vmc = vmc_with run_MC"

section \<open>Concrete configurations\<close>

text \<open>Three particles on a line, at 0, 1 and 3; then the second one moved to 2.\<close>

definition cfg_w :: VMCConfiguration where
  "cfg_w = \<lparr>ho_type = SYMMETRIC, interaction = InteractionON, acceleration = AnalyticON,
            dims = DIM_1, n_particles = 3, omega_ho = 1, omega_z = 1, a = 0.0043,
            h = 0.001, h2 = 1000000, step_length = 1\<rparr>"

definition R_w :: mat where
  "R_w = (\<lambda>(d, i). if d = 0 then (if i = 0 then 0 else if i = 1 then 1 else if i = 2 then 3 else 0)
                    else 0)"

definition R_w' :: mat where
  "R_w' = R_w((0, 1) := 2)"

definition s_w :: VMCSolver where
  "s_w = initialize_distance_matrix (VMCSolver_new cfg_w (1/2) 1) R_w"

text \<open>A solver fresh from its constructor: every cached distance is zero.\<close>

definition s_zero :: VMCSolver where
  "s_zero = VMCSolver_new cfg_w (1/2) 1"

section \<open>Auxiliary predicates\<close>

text \<open>
  What \<open>E_kinetic\<close> keeps of the solver \<open>s\<close> and the positions \<open>R\<close> it is called on, in
  every case (\<open>kin_keeps\<close>) and on a consistent cache (\<open>kin_same\<close>).
\<close>

definition kin_keeps :: "VMCSolver \<Rightarrow> mat \<Rightarrow> real \<times> mat \<times> VMCSolver \<Rightarrow> bool" where
  "kin_keeps s R st =
     (config (snd (snd st)) = config s \<and> alpha (snd (snd st)) = alpha s \<and>
      beta (snd (snd st)) = beta s \<and> fst (snd st) = R \<and>
      (\<forall>x y. \<not> x < y \<longrightarrow> dist_mat (snd (snd st)) (x, y) = dist_mat s (x, y)))"

definition kin_same :: "VMCSolver \<Rightarrow> mat \<Rightarrow> real \<times> mat \<times> VMCSolver \<Rightarrow> bool" where
  "kin_same s R st = (snd st = (R, s))"

text \<open>
  The invariant of a run between two particle moves: the trial positions equal the
  current ones, every populated entry of the cache is the distance in the current
  positions, and the cache is zero on and below the diagonal.
\<close>

definition mc_inv :: "mc_state \<Rightarrow> bool" where
  "mc_inv st =
     (R_new st = R_old st \<and> cache_consistent (sol st) (R_old st) \<and> lower_zero (dist_mat (sol st)))"

text \<open>
  The states a solver can be in between two particle moves: after the initialisation of
  the first run of a new solver, after the initialisation of a later run (the sweep has set
  \<open>_alpha\<close> and \<open>_beta\<close>), and after the move of a particle from such a state, whatever the
  values drawn and whatever \<open>Psi_old\<close> holds.
\<close>

inductive reachable :: "mc_state \<Rightarrow> bool" where
  first_run: "reachable (run_MC_init (VMCSolver_new cfg al be) g)"
| next_run: "reachable st \<Longrightarrow> reachable (run_MC_init ((sol st)\<lparr>alpha := al, beta := be\<rparr>) g)"
| step: "reachable st \<Longrightarrow> i < n_particles (config (sol st))
           \<Longrightarrow> reachable (snd (metro_step i (Psi_old, st)))"

text \<open>
  A generator, and the start of a run with it: its canonical numbers 1/2, 3/4 and 1/4 put
  the three particles of \<open>cfg_w\<close> at 0, 1/4 and -1/4; the next ones, 5/8 and 0, give a trial
  move by 1/8 and the test value 0.
\<close>

definition g_w :: rand_gen where
  "g_w k = Abs_canon (if k = 0 then 1/2 else if k = 1 then 3/4 else if k = 2 then 1/4
                      else if k = 3 then 5/8 else 0)"

definition st_w :: mc_state where
  "st_w = run_MC_init s_zero g_w"

text \<open>One particle on a line in the symmetric trap, no interaction, analytic mode.\<close>

definition cfg_1 :: VMCConfiguration where
  "cfg_1 = \<lparr>ho_type = SYMMETRIC, interaction = InteractionOFF, acceleration = AnalyticON,
            dims = DIM_1, n_particles = 1, omega_ho = 1, omega_z = 1, a = 0.0043,
            h = 0.001, h2 = 1000000, step_length = 1\<rparr>"

definition s_1 :: VMCSolver where
  "s_1 = VMCSolver_new cfg_1 (1/2) 1"

text \<open>
  The comparison \<open>b.variance <= r.variance\<close> of two records; it is false when one of the
  two is not a number.
\<close>

definition variance_le :: "Results \<Rightarrow> Results \<Rightarrow> bool" where
  "variance_le b r =
     (case (variance b, variance r) of (Some x, Some y) \<Rightarrow> x \<le> y | _ \<Rightarrow> False)"

text \<open>
  The best record holds a number as its variance, at most every number that is the
  variance of a record evaluated so far.
\<close>

definition best_below :: "vmc_state \<Rightarrow> bool" where
  "best_below v =
     (\<exists>b. variance (best v) = Some b \<and>
          (\<forall>r\<in>set (evaluated v). \<forall>y. variance r = Some y \<longrightarrow> b \<le> y))"

text \<open>Some content for the local \<open>Results best\<close> of \<open>vmc\<close> before anything is assigned.\<close>

definition res_junk :: Results where
  "res_junk = \<lparr>E = None, E2 = None, variance = None, res_alpha = 0, res_beta = 0,
               acceptance_rate = None\<rparr>"

text \<open>
  The invariant of the sweep: the stream holds what it held after the header, \<open>pre\<close>,
  followed by one line for each record evaluated; the best record is below the evaluated
  ones, and it is the record \<open>start\<close> the sweep began with or one of the evaluated ones.
\<close>

definition sweep_inv :: "out_item list \<Rightarrow> Results \<Rightarrow> vmc_state \<Rightarrow> bool" where
  "sweep_inv pre start v =
     ((\<exists>ls. v_out v = pre @ ls \<and> count_lines ls = length (evaluated v)) \<and>
      best_below v \<and> (best v = start \<or> best v \<in> set (evaluated v)))"

text \<open>
  One particle in three dimensions in the elliptical trap, no interaction, \<open>alpha = 1/2\<close>
  and \<open>beta = 2\<close>, with the finite-difference step \<open>hv\<close> and \<open>h2 = 1 / (hv * hv)\<close> as the
  driver sets it: once in the numeric mode and once in the analytic mode.
\<close>

definition cfg_3 :: "AnalyticAcceleration \<Rightarrow> real \<Rightarrow> VMCConfiguration" where
  "cfg_3 acc hv = \<lparr>ho_type = ELLIPTICAL, interaction = InteractionOFF, acceleration = acc,
                   dims = DIM_3, n_particles = 1, omega_ho = 1, omega_z = 1, a = 0.0043,
                   h = hv, h2 = 1 / (hv * hv), step_length = 1\<rparr>"

definition s_num :: "real \<Rightarrow> VMCSolver" where
  "s_num hv = VMCSolver_new (cfg_3 AnalyticOFF hv) (1/2) 2"

definition s_ana :: "real \<Rightarrow> VMCSolver" where
  "s_ana hv = VMCSolver_new (cfg_3 AnalyticON hv) (1/2) 2"




text \<open>
  The start of a run of \<open>s_1\<close> with the generator \<open>g_w\<close>: the particle is at 0, the trial
  move is by 1/4 and the test value is 1/4.
\<close>

definition st_1 :: mc_state where
  "st_1 = run_MC_init s_1 g_w"

text \<open>
  The exact results that \<open>fl\<close> keeps: zero, and the numbers between the underflow and the
  overflow.
\<close>

definition in_double_range :: "real \<Rightarrow> bool" where
  "in_double_range x = (x = 0 \<or> (dbl_underflow < \<bar>x\<bar> \<and> \<bar>x\<bar> < dbl_overflow))"

text \<open>
  The state in the middle of the move of particle \<open>i\<close>: after the trial move and the
  update of the cache for it, before the test (the state \<open>Psi(R_new)\<close> is evaluated in).
\<close>

definition trial_state :: "nat \<Rightarrow> mc_state \<Rightarrow> mc_state" where
  "trial_state i st =
     (let tr = propose i st in tr\<lparr>sol := update_distance_matrix (sol tr) i (R_new tr)\<rparr>)"

section \<open>Lemmas on the distance cache\<close>

lemma fold_row_write:
  "fold (\<lambda>j D. D((i, j) := f j)) [lo..<hi] D0 =
     (\<lambda>(x, y). if x = i \<and> lo \<le> y \<and> y < hi then f y else D0 (x, y))"
proof (induction hi)
  case 0
  show ?case by (simp add: fun_eq_iff)
next
  case (Suc hi)
  show ?case
  proof (cases "lo \<le> hi")
    case True
    then show ?thesis using Suc by (auto simp: fun_eq_iff)
  next
    case False
    then show ?thesis by (auto simp: fun_eq_iff)
  qed
qed

lemma fold_col_write:
  "fold (\<lambda>i D. D((i, j) := f i)) [lo..<hi] D0 =
     (\<lambda>(x, y). if y = j \<and> lo \<le> x \<and> x < hi then f x else D0 (x, y))"
proof (induction hi)
  case 0
  show ?case by (simp add: fun_eq_iff)
next
  case (Suc hi)
  show ?case
  proof (cases "lo \<le> hi")
    case True
    then show ?thesis using Suc by (auto simp: fun_eq_iff)
  next
    case False
    then show ?thesis by (auto simp: fun_eq_iff)
  qed
qed

lemma fold_rows_write:
  "fold (\<lambda>i D. fold (\<lambda>j D. D((i, j) := f i j)) [Suc i..<n] D) [0..<m] D0 =
     (\<lambda>(x, y). if x < m \<and> x < y \<and> y < n then f x y else D0 (x, y))"
proof (induction m)
  case 0
  show ?case by (simp add: fun_eq_iff)
next
  case (Suc m)
  have "fold (\<lambda>i D. fold (\<lambda>j D. D((i, j) := f i j)) [Suc i..<n] D) [0..<Suc m] D0
      = fold (\<lambda>j D. D((m, j) := f m j)) [Suc m..<n]
          (\<lambda>(x, y). if x < m \<and> x < y \<and> y < n then f x y else D0 (x, y))"
    by (simp add: Suc)
  also have "\<dots> = (\<lambda>(x, y). if x < Suc m \<and> x < y \<and> y < n then f x y else D0 (x, y))"
    unfolding fold_row_write by (auto simp: fun_eq_iff)
  finally show ?case .
qed

lemma dist_initialize:
  "dist_mat (initialize_distance_matrix s R) (i, j) =
     (if i < j \<and> j < n_particles (config s) then pair_dist (config s) R i j else dist_mat s (i, j))"
  by (auto simp: initialize_distance_matrix_def fold_rows_write pair_dist_def)

lemma dist_update:
  "dist_mat (update_distance_matrix s p R) (i, j) =
     (if (i = p \<and> p < j \<and> j < n_particles (config s)) \<or> (j = p \<and> i < p)
      then pair_dist (config s) R i j else dist_mat s (i, j))"
  by (auto simp: update_distance_matrix_def Let_def fold_row_write fold_col_write pair_dist_def)

lemma config_initialize [simp]: "config (initialize_distance_matrix s R) = config s"
  by (simp add: initialize_distance_matrix_def)

lemma config_update [simp]: "config (update_distance_matrix s p R) = config s"
  by (simp add: update_distance_matrix_def Let_def)

lemma update_record:
  "update_distance_matrix s p R = s\<lparr>dist_mat := dist_mat (update_distance_matrix s p R)\<rparr>"
  by (simp add: update_distance_matrix_def Let_def)

lemma initialize_record:
  "initialize_distance_matrix s R = s\<lparr>dist_mat := dist_mat (initialize_distance_matrix s R)\<rparr>"
  by (simp add: initialize_distance_matrix_def)

lemma col_cong: "(\<forall>d. R' (d, i) = R (d, i)) \<Longrightarrow> col cfg R' i = col cfg R i"
  by (simp add: col_def)

lemma pair_dist_cong:
  "(\<forall>d. R' (d, i) = R (d, i)) \<Longrightarrow> (\<forall>d. R' (d, j) = R (d, j))
     \<Longrightarrow> pair_dist cfg R' i j = pair_dist cfg R i j"
  using col_cong [of R' i R cfg] col_cong [of R' j R cfg] by (simp add: pair_dist_def)

lemma dist_update_moved:
  assumes p: "p < n_particles (config s)"
    and same: "\<forall>d i. i \<noteq> p \<longrightarrow> R' (d, i) = R (d, i)"
    and cons: "cache_consistent s R"
    and ij: "i < j" "j < n_particles (config s)"
  shows "dist_mat (update_distance_matrix s p R') (i, j) = pair_dist (config s) R' i j"
proof (cases "i = p \<or> j = p")
  case True
  then show ?thesis using ij by (auto simp: dist_update)
next
  case False
  then have "pair_dist (config s) R' i j = pair_dist (config s) R i j"
    using same by (intro pair_dist_cong) auto
  moreover have "dist_mat s (i, j) = pair_dist (config s) R i j"
    using cons ij by (simp add: cache_consistent_def)
  ultimately show ?thesis using False by (simp add: dist_update)
qed

lemma norm2_single: "norm2 [x] = \<bar>x\<bar>"
  by (simp add: norm2_def dot_def)

lemma config_s_w: "config s_w = cfg_w"
  by (simp add: s_w_def VMCSolver_new_def)

lemma s_w_consistent: "cache_consistent s_w R_w"
  by (simp add: cache_consistent_def s_w_def dist_initialize)

section \<open>The claims\<close>

text \<open>
  C1. Let the cache be consistent with the positions \<open>R\<close>, and let \<open>R'\<close> differ from \<open>R\<close>
  in the column of particle \<open>p\<close> only. Then \<open>update_distance_matrix\<close> for \<open>p\<close> on \<open>R'\<close> gives
  the same solver as \<open>initialize_distance_matrix\<close> on \<open>R'\<close>; and whatever the distance
  matrix held before the initialisation, the two agree on every populated entry
  \<open>(i, j)\<close>, \<open>i < j < n_particles\<close>. This holds for every particle count and every
  dimensionality.
\<close>

theorem update_equals_initialize:
  assumes p: "p < n_particles (config s)"
    and same: "\<forall>d i. i \<noteq> p \<longrightarrow> R' (d, i) = R (d, i)"
    and cons: "cache_consistent s R"
  shows "update_distance_matrix s p R' = initialize_distance_matrix s R' \<and>
         (\<forall>s0 i j. config s0 = config s \<and> i < j \<and> j < n_particles (config s) \<longrightarrow>
            dist_mat (update_distance_matrix s p R') (i, j)
              = dist_mat (initialize_distance_matrix s0 R') (i, j))"
proof
  have "dist_mat (update_distance_matrix s p R') ij
          = dist_mat (initialize_distance_matrix s R') ij" for ij
  proof (cases ij)
    case (Pair i j)
    show ?thesis
    proof (cases "i < j \<and> j < n_particles (config s)")
      case True
      then show ?thesis
        using dist_update_moved [OF p same cons, of i j] by (simp add: Pair dist_initialize)
    next
      case False
      then show ?thesis using p by (auto simp: Pair dist_initialize dist_update)
    qed
  qed
  then have "dist_mat (update_distance_matrix s p R')
               = dist_mat (initialize_distance_matrix s R')"
    by (simp add: fun_eq_iff)
  then show "update_distance_matrix s p R' = initialize_distance_matrix s R'"
    using update_record [of s p R'] initialize_record [of s R'] by simp
next
  show "\<forall>s0 i j. config s0 = config s \<and> i < j \<and> j < n_particles (config s) \<longrightarrow>
            dist_mat (update_distance_matrix s p R') (i, j)
              = dist_mat (initialize_distance_matrix s0 R') (i, j)"
    using dist_update_moved [OF p same cons] by (simp add: dist_initialize)
qed

theorem update_equals_initialize_witness:
  "update_distance_matrix s_w 1 R_w' = initialize_distance_matrix s_w R_w' \<and>
   dist_mat (update_distance_matrix s_w 1 R_w') (0, 1) = 2 \<and>
   dist_mat (update_distance_matrix s_w 1 R_w') (1, 2) = 1 \<and>
   dist_mat (update_distance_matrix s_w 1 R_w') (0, 2) = 3"
proof -
  have p: "1 < n_particles (config s_w)"
    by (simp add: config_s_w cfg_w_def)
  have same: "\<forall>d i. i \<noteq> 1 \<longrightarrow> R_w' (d, i) = R_w (d, i)"
    by (simp add: R_w'_def)
  have "dist_mat (initialize_distance_matrix s_w R_w') (0, 1) = 2"
       "dist_mat (initialize_distance_matrix s_w R_w') (1, 2) = 1"
       "dist_mat (initialize_distance_matrix s_w R_w') (0, 2) = 3"
    by (simp_all add: dist_initialize config_s_w pair_dist_def col_def cfg_w_def vsub_def
          norm2_single R_w'_def R_w_def)
  then show ?thesis
    using update_equals_initialize [OF p same s_w_consistent] by simp
qed

lemma fold_ctl:
  "fold (\<lambda>j c. case c of Returned v \<Rightarrow> Returned v
                 | Running x \<Rightarrow> if P j then Returned r else Running (g j x)) js (Returned v)
     = Returned v"
  by (induction js) simp_all

lemma fold_ctl_running:
  "fold (\<lambda>j c. case c of Returned v \<Rightarrow> Returned v
                 | Running x \<Rightarrow> if P j then Returned r else Running (g j x)) js (Running x)
     = (if \<exists>j\<in>set js. P j then Returned r else Running (fold g js x))"
  by (induction js arbitrary: x) (simp_all add: fold_ctl)

lemma fold_ctl_nested_returned:
  "fold (\<lambda>i c. fold (\<lambda>j c. case c of Returned v \<Rightarrow> Returned v
                 | Running x \<Rightarrow> if P i j then Returned r else Running (g i j x)) (js i) c)
        is (Returned v) = Returned v"
  by (induction "is") (simp_all add: fold_ctl)

lemma fold_ctl_nested:
  "fold (\<lambda>i c. fold (\<lambda>j c. case c of Returned v \<Rightarrow> Returned v
                 | Running x \<Rightarrow> if P i j then Returned r else Running (g i j x)) (js i) c)
        is (Running x)
     = (if \<exists>i\<in>set is. \<exists>j\<in>set (js i). P i j then Returned r
        else Running (fold (\<lambda>i x. fold (g i) (js i) x) is x))"
  by (induction "is" arbitrary: x) (simp_all add: fold_ctl_running fold_ctl_nested_returned)

lemma pairs_iff:
  "(\<exists>i\<in>{0..<n}. \<exists>j\<in>{Suc i..<n}. P i j) \<longleftrightarrow> (\<exists>i j. i < j \<and> j < n \<and> P i j)"
proof
  assume "\<exists>i\<in>{0..<n}. \<exists>j\<in>{Suc i..<n}. P i j"
  then obtain i j where "i < n" "Suc i \<le> j" "j < n" "P i j" by auto
  then have "i < j \<and> j < n \<and> P i j" by simp
  then show "\<exists>i j. i < j \<and> j < n \<and> P i j" by blast
next
  assume "\<exists>i j. i < j \<and> j < n \<and> P i j"
  then obtain i j where ij: "i < j" "j < n" "P i j" by blast
  then have "i \<in> {0..<n}" "j \<in> {Suc i..<n}" by simp_all
  with ij show "\<exists>i\<in>{0..<n}. \<exists>j\<in>{Suc i..<n}. P i j" by blast
qed

lemma fold_mult: "fold (\<lambda>j f. f * t j) js (x::real) = x * prod_list (map t js)"
  by (induction js arbitrary: x) (simp_all add: mult.assoc)

lemma fold_mult_nested:
  "fold (\<lambda>i x. fold (\<lambda>j f. f * t i j) (js i) x) is (x::real)
     = x * prod_list (map (\<lambda>i. prod_list (map (t i) (js i))) is)"
  by (induction "is" arbitrary: x) (simp_all add: fold_mult mult.assoc)

lemma prod_list_upt: "prod_list (map t [lo..<hi]) = (\<Prod>j\<in>{lo..<hi}. (t j :: real))"
  using prod.distinct_set_conv_list [of "[lo..<hi]" t] by simp

text \<open>
  C7. The interaction potential is zero when the interaction is off or when every cached
  distance of a pair \<open>i < j\<close> exceeds the hard-sphere radius, and it is the largest finite
  \<open>double\<close> otherwise: a positive number below \<open>2 ^ 1024\<close>, the first value a \<open>double\<close> cannot
  hold. (A \<open>double\<close> is a real number here; no other value than these two is returned.)
\<close>

theorem V_int_spec:
  "V_int s =
     (if interaction (config s) = InteractionOFF
         \<or> (\<forall>i j. i < j \<and> j < n_particles (config s) \<longrightarrow> a (config s) < dist_mat s (i, j))
      then 0 else DBL_MAX)
   \<and> 0 < DBL_MAX \<and> DBL_MAX < 2 ^ 1024"
proof -
  have "DBL_MAX < 2 ^ 53 * 2 ^ 971"
    unfolding DBL_MAX_def by (intro mult_strict_right_mono) simp_all
  then have "DBL_MAX < 2 ^ 1024" by (simp add: power_add [symmetric])
  moreover have "0 < DBL_MAX" by (simp add: DBL_MAX_def)
  moreover have "V_int s =
     (if interaction (config s) = InteractionOFF
         \<or> (\<forall>i j. i < j \<and> j < n_particles (config s) \<longrightarrow> a (config s) < dist_mat s (i, j))
      then 0 else DBL_MAX)"
  proof -
    let ?hit = "\<exists>i j. i < j \<and> j < n_particles (config s) \<and> dist_mat s (i, j) \<le> a (config s)"
    have "V_int s = (if interaction (config s) = InteractionOFF then 0
                     else if \<exists>i\<in>{0..<n_particles (config s)}.
                                \<exists>j\<in>{Suc i..<n_particles (config s)}.
                                   dist_mat s (i, j) \<le> a (config s)
                          then DBL_MAX else 0)"
      by (simp add: V_int_def Let_def fold_ctl_nested)
    then have v: "V_int s = (if interaction (config s) = InteractionOFF then 0
                          else if ?hit then DBL_MAX else 0)"
      unfolding pairs_iff .
    have eq: "?hit \<longleftrightarrow>
        \<not> (\<forall>i j. i < j \<and> j < n_particles (config s) \<longrightarrow> a (config s) < dist_mat s (i, j))"
      by (simp add: not_less)
    show ?thesis
      using v unfolding eq
      by (cases "interaction (config s) = InteractionOFF";
          cases "\<forall>i j. i < j \<and> j < n_particles (config s) \<longrightarrow> a (config s) < dist_mat s (i, j)";
          simp; blast)
  qed
  ultimately show ?thesis by simp
qed

text \<open>
  C6. With the interaction on, the Jastrow factor is zero as soon as one cached distance
  of a pair \<open>i < j\<close> is at most the hard-sphere radius; otherwise it is the product over
  all pairs \<open>i < j\<close> of \<open>1 - a / dist(i, j)\<close>. With the interaction off it is 1.
\<close>

theorem Psi_f_spec:
  "Psi_f s =
     (if interaction (config s) = InteractionOFF then 1
      else if \<exists>i j. i < j \<and> j < n_particles (config s) \<and> dist_mat s (i, j) \<le> a (config s)
      then 0
      else (\<Prod>i\<in>{0..<n_particles (config s)}. \<Prod>j\<in>{Suc i..<n_particles (config s)}.
              (1 - a (config s) / dist_mat s (i, j))))"
proof -
  have "Psi_f s =
     (if interaction (config s) = InteractionOFF then 1
      else if \<exists>i\<in>{0..<n_particles (config s)}. \<exists>j\<in>{Suc i..<n_particles (config s)}.
                 dist_mat s (i, j) \<le> a (config s)
      then 0
      else (\<Prod>i\<in>{0..<n_particles (config s)}. \<Prod>j\<in>{Suc i..<n_particles (config s)}.
              (1 - a (config s) / dist_mat s (i, j))))"
    by (simp add: Psi_f_def Let_def fold_ctl_nested fold_mult_nested prod_list_upt)
  then show ?thesis unfolding pairs_iff .
qed

text \<open>
  C3. One dimension, two particles at the origin, interaction off, analytic mode, symmetric
  trap, \<open>alpha = 0.5\<close> and \<open>beta = 1\<close>: the external and the interaction potential are zero,
  the loop over the particles accumulates \<open>- 2 * alpha\<close> for each of the two, and the local
  energy is exactly 1, whatever the other fields of the configuration and the distance
  matrix hold.
\<close>

theorem E_local_origin:
  "V_ext \<lparr>config = \<lparr>ho_type = SYMMETRIC, interaction = InteractionOFF,
                        acceleration = AnalyticON, dims = DIM_1, n_particles = 2,
                        omega_ho = om, omega_z = oz, a = av, h = hv, h2 = h2v,
                        step_length = sl\<rparr>,
              alpha = 0.5, beta = 1, dist_mat = D\<rparr> zeros = 0 \<and>
   V_int \<lparr>config = \<lparr>ho_type = SYMMETRIC, interaction = InteractionOFF,
                        acceleration = AnalyticON, dims = DIM_1, n_particles = 2,
                        omega_ho = om, omega_z = oz, a = av, h = hv, h2 = h2v,
                        step_length = sl\<rparr>,
              alpha = 0.5, beta = 1, dist_mat = D\<rparr> = 0 \<and>
   fold (E_local_k \<lparr>config = \<lparr>ho_type = SYMMETRIC, interaction = InteractionOFF,
                                  acceleration = AnalyticON, dims = DIM_1, n_particles = 2,
                                  omega_ho = om, omega_z = oz, a = av, h = hv, h2 = h2v,
                                  step_length = sl\<rparr>,
                        alpha = 0.5, beta = 1, dist_mat = D\<rparr> zeros) [0..<2] 0 = - 2 \<and>
   fst (E_local \<lparr>config = \<lparr>ho_type = SYMMETRIC, interaction = InteractionOFF,
                            acceleration = AnalyticON, dims = DIM_1, n_particles = 2,
                            omega_ho = om, omega_z = oz, a = av, h = hv, h2 = h2v,
                            step_length = sl\<rparr>,
                  alpha = 0.5, beta = 1, dist_mat = D\<rparr> zeros) = 1"
  by (simp add: E_local_def E_local_k_def V_ext_def V_int_def r_k_skewed_def one_body_beta_term_def
       trunc_int_def col_def dot_def zeros_def Let_def numeral_2_eq_2)



lemma dist_s_w:
  "dist_mat s_w (0, 1) = 1" "dist_mat s_w (0, 2) = 3" "dist_mat s_w (1, 2) = 2"
  by (simp_all add: s_w_def dist_initialize VMCSolver_new_def cfg_w_def pair_dist_def col_def
        vsub_def norm2_single R_w_def)

lemma dist_s_w_Suc:
  "dist_mat s_w (0, Suc 0) = 1" "dist_mat s_w (0, Suc (Suc 0)) = 3"
  "dist_mat s_w (Suc 0, Suc (Suc 0)) = 2"
  using dist_s_w by (simp_all add: numeral_2_eq_2)

lemma pairs_below_3: "i < j \<Longrightarrow> j < 3 \<Longrightarrow> (i, j) = (0, 1) \<or> (i, j) = (0, 2) \<or> (i, j) = (1, 2::nat)"
  by auto

lemma s_w_apart: "i < j \<and> j < 3 \<longrightarrow> 0.0043 < dist_mat s_w (i, j)"
  using pairs_below_3 [of i j] dist_s_w by auto

theorem V_int_spec_witness:
  "V_int s_w = 0 \<and> V_int s_zero = DBL_MAX"
proof -
  have "\<forall>i j. i < j \<and> j < n_particles (config s_w) \<longrightarrow> a (config s_w) < dist_mat s_w (i, j)"
    using s_w_apart by (simp add: config_s_w cfg_w_def)
  then have "V_int s_w = 0" using V_int_spec [of s_w] by simp
  moreover have "\<not> (\<forall>i j. i < j \<and> j < n_particles (config s_zero)
                       \<longrightarrow> a (config s_zero) < dist_mat s_zero (i, j))"
    by (simp add: s_zero_def VMCSolver_new_def cfg_w_def zeros_def) (rule exI [of _ 0], rule exI [of _ 1], simp)
  then have "V_int s_zero = DBL_MAX"
    using V_int_spec [of s_zero] by (simp add: s_zero_def VMCSolver_new_def cfg_w_def)
  ultimately show ?thesis by simp
qed

theorem Psi_f_spec_witness:
  "Psi_f s_zero = 0 \<and> Psi_f s_w = (1 - 0.0043 / 1) * (1 - 0.0043 / 3) * (1 - 0.0043 / 2)"
proof -
  have "\<exists>i j. i < j \<and> j < n_particles (config s_zero)
               \<and> dist_mat s_zero (i, j) \<le> a (config s_zero)"
    by (rule exI [of _ 0], rule exI [of _ 1]) (simp add: s_zero_def VMCSolver_new_def cfg_w_def zeros_def)
  then have z: "Psi_f s_zero = 0"
    using Psi_f_spec [of s_zero] by (simp add: s_zero_def VMCSolver_new_def cfg_w_def)
  have on: "interaction (config s_w) \<noteq> InteractionOFF"
    by (simp add: config_s_w cfg_w_def)
  have apart: "\<not> (\<exists>i j. i < j \<and> j < n_particles (config s_w)
                        \<and> dist_mat s_w (i, j) \<le> a (config s_w))"
    using s_w_apart by (auto simp: config_s_w cfg_w_def not_le)
  have "Psi_f s_w = (\<Prod>i\<in>{0..<n_particles (config s_w)}. \<Prod>j\<in>{Suc i..<n_particles (config s_w)}.
                       (1 - a (config s_w) / dist_mat s_w (i, j)))"
    by (subst Psi_f_spec, subst if_not_P [OF on], subst if_not_P [OF apart], rule refl)
  also have "\<dots> = (\<Prod>i\<in>{0..<3}. \<Prod>j\<in>{Suc i..<3}. (1 - 0.0043 / dist_mat s_w (i, j)))"
    by (simp add: config_s_w cfg_w_def)
  also have "\<dots> = (1 - 0.0043 / 1) * (1 - 0.0043 / 3) * (1 - 0.0043 / 2)"
    by (simp add: numeral_3_eq_3 prod.atLeast_Suc_lessThan dist_s_w_Suc)
  finally show ?thesis using z by simp
qed

subsection \<open>Vector lemmas\<close>

lemma dot_self_vsub_commute: "dot (vsub u v) (vsub u v) = dot (vsub v u) (vsub v u)"
proof (induction u arbitrary: v)
  case Nil
  show ?case by (simp add: vsub_def dot_def)
next
  case (Cons x u)
  show ?case
  proof (cases v)
    case Nil
    then show ?thesis by (simp add: vsub_def dot_def)
  next
    case (Cons y w)
    have "(x - y) * (x - y) = (y - x) * (y - x)" by (simp add: algebra_simps)
    then show ?thesis
      using Cons.IH [of w] by (simp add: Cons vsub_def dot_def)
  qed
qed

lemma norm2_vsub_commute: "norm2 (vsub u v) = norm2 (vsub v u)"
  by (simp add: norm2_def dot_self_vsub_commute)

lemma pair_dist_commute: "pair_dist cfg R i j = pair_dist cfg R j i"
  by (simp add: pair_dist_def norm2_vsub_commute)

lemma dot_self_nonneg: "0 \<le> dot v v"
  by (induction v) (simp_all add: dot_def)

lemma dot_self_zero: "dot v v = 0 \<longleftrightarrow> (\<forall>x\<in>set v. x = 0)"
proof (induction v)
  case Nil
  show ?case by (simp add: dot_def)
next
  case (Cons x v)
  have "dot (x # v) (x # v) = x * x + dot v v" by (simp add: dot_def)
  moreover have "x * x + dot v v = 0 \<longleftrightarrow> x = 0 \<and> dot v v = 0"
    using dot_self_nonneg [of v] by (simp add: add_nonneg_eq_0_iff)
  ultimately show ?case using Cons by simp
qed

lemma vsub_zero: "length u = length v \<Longrightarrow> (\<forall>x\<in>set (vsub u v). x = 0) \<longleftrightarrow> u = v"
  by (induction u v rule: list_induct2) (auto simp: vsub_def)

lemma norm2_vsub_zero: "length u = length v \<Longrightarrow> norm2 (vsub u v) = 0 \<longleftrightarrow> u = v"
  by (simp add: norm2_def dot_self_zero vsub_zero)

lemma pair_dist_zero: "pair_dist cfg R i j = 0 \<longleftrightarrow> col cfg R i = col cfg R j"
  by (simp add: pair_dist_def norm2_vsub_zero col_def)

lemma pair_dist_self: "pair_dist cfg R i i = 0"
  by (simp add: pair_dist_zero)

subsection \<open>Updates of the cache\<close>

lemma alpha_update [simp]: "alpha (update_distance_matrix s p R) = alpha s"
  by (simp add: update_distance_matrix_def Let_def)

lemma beta_update [simp]: "beta (update_distance_matrix s p R) = beta s"
  by (simp add: update_distance_matrix_def Let_def)

lemma alpha_initialize [simp]: "alpha (initialize_distance_matrix s R) = alpha s"
  by (simp add: initialize_distance_matrix_def)

lemma beta_initialize [simp]: "beta (initialize_distance_matrix s R) = beta s"
  by (simp add: initialize_distance_matrix_def)

lemma update_lower: "\<not> i < j \<Longrightarrow> dist_mat (update_distance_matrix s p R) (i, j) = dist_mat s (i, j)"
  by (auto simp: dist_update)

lemma initialize_lower: "\<not> i < j \<Longrightarrow> dist_mat (initialize_distance_matrix s R) (i, j) = dist_mat s (i, j)"
  by (auto simp: dist_initialize)

lemma update_consistent_id:
  assumes "cache_consistent s R" "p < n_particles (config s)"
  shows "update_distance_matrix s p R = s"
proof -
  have "dist_mat (update_distance_matrix s p R) ij = dist_mat s ij" for ij
    using assms by (cases ij) (auto simp: dist_update cache_consistent_def)
  then have "dist_mat (update_distance_matrix s p R) = dist_mat s" by (simp add: fun_eq_iff)
  then show ?thesis by (intro VMCSolver.equality) simp_all
qed

lemma update_update:
  "update_distance_matrix (update_distance_matrix s p R1) p R2 = update_distance_matrix s p R2"
proof -
  have "dist_mat (update_distance_matrix (update_distance_matrix s p R1) p R2) ij
        = dist_mat (update_distance_matrix s p R2) ij" for ij
    by (cases ij) (auto simp: dist_update)
  then have "dist_mat (update_distance_matrix (update_distance_matrix s p R1) p R2)
        = dist_mat (update_distance_matrix s p R2)" by (simp add: fun_eq_iff)
  then show ?thesis by (intro VMCSolver.equality) simp_all
qed

lemma update_consistent:
  assumes "p < n_particles (config s)" "\<forall>d i. i \<noteq> p \<longrightarrow> R' (d, i) = R (d, i)" "cache_consistent s R"
  shows "cache_consistent (update_distance_matrix s p R') R'"
  using dist_update_moved [OF assms] by (simp add: cache_consistent_def)

lemma initialize_consistent: "cache_consistent (initialize_distance_matrix s R) R"
  by (simp add: cache_consistent_def dist_initialize)

subsection \<open>The numeric kinetic energy restores what it changes\<close>

lemma fold_inv:
  "P st \<Longrightarrow> (\<And>x st. x \<in> set xs \<Longrightarrow> P st \<Longrightarrow> P (f x st)) \<Longrightarrow> P (fold f xs st)"
  by (induction xs arbitrary: st) simp_all

lemma E_kinetic_body_lower:
  "E_kinetic_body i d (Ek, R, s) = (Ek', R', s') \<Longrightarrow>
     config s' = config s \<and> alpha s' = alpha s \<and> beta s' = beta s \<and> R' = R \<and>
     (\<forall>x y. \<not> x < y \<longrightarrow> dist_mat s' (x, y) = dist_mat s (x, y))"
  by (auto simp: E_kinetic_body_def Let_def update_lower split: if_splits)

lemma E_kinetic_body_restore:
  assumes "cache_consistent s R" "i < n_particles (config s)"
  shows "snd (E_kinetic_body i d (Ek, R, s)) = (R, s)"
  using assms by (simp add: E_kinetic_body_def Let_def update_update update_consistent_id)


lemma kin_keeps_body: "kin_keeps s R st \<Longrightarrow> kin_keeps s R (E_kinetic_body i d st)"
proof -
  assume k: "kin_keeps s R st"
  obtain Ek R1 s1 where st: "st = (Ek, R1, s1)" by (cases st) auto
  obtain Ek' R' s' where b: "E_kinetic_body i d (Ek, R1, s1) = (Ek', R', s')"
    by (cases "E_kinetic_body i d (Ek, R1, s1)") auto
  from E_kinetic_body_lower [OF b] k b show ?thesis
    by (auto simp: kin_keeps_def st)
qed

lemma kin_keeps_loops:
  "kin_keeps s R st \<Longrightarrow>
   kin_keeps s R (fold (\<lambda>i st. fold (\<lambda>d st. E_kinetic_body i d st) ds st) is st)"
  by (rule fold_inv, assumption, rule fold_inv, assumption, rule kin_keeps_body)

lemma E_kinetic_loop_keeps: "kin_keeps s R (E_kinetic_loop s R)"
  unfolding E_kinetic_loop_def Let_def
  by (rule kin_keeps_loops) (simp add: kin_keeps_def)

lemma E_kinetic_keeps: "kin_keeps s R (E_kinetic s R)"
  using E_kinetic_loop_keeps [of s R] by (simp add: E_kinetic_def kin_keeps_def split_beta)

lemma kin_same_body:
  "cache_consistent s R \<Longrightarrow> i < n_particles (config s) \<Longrightarrow> kin_same s R st
     \<Longrightarrow> kin_same s R (E_kinetic_body i d st)"
  using E_kinetic_body_restore [of s R i d "fst st"] by (cases st) (simp add: kin_same_def)

lemma E_kinetic_loop_restore:
  assumes "cache_consistent s R"
  shows "kin_same s R (E_kinetic_loop s R)"
  unfolding E_kinetic_loop_def Let_def
proof (rule fold_inv)
  show "kin_same s R (- 2 * real (n_particles (config s) * dim_val (dims (config s))) * Psi s R, R, s)"
    by (simp add: kin_same_def)
next
  fix i st
  assume i: "i \<in> set [0..<n_particles (config s)]" and st: "kin_same s R st"
  from st show "kin_same s R (fold (\<lambda>d st. E_kinetic_body i d st) [0..<dim_val (dims (config s))] st)"
  proof (rule fold_inv)
    fix d st'
    assume "kin_same s R st'"
    then show "kin_same s R (E_kinetic_body i d st')"
      using kin_same_body [OF assms] i by simp
  qed
qed

lemma E_kinetic_restore: "cache_consistent s R \<Longrightarrow> snd (E_kinetic s R) = (R, s)"
  using E_kinetic_loop_restore [of s R] by (simp add: E_kinetic_def kin_same_def split_beta)

lemma E_local_keeps: "kin_keeps s R (E_local s R)"
proof (cases "acceleration (config s) = AnalyticOFF")
  case True
  then show ?thesis
    using E_kinetic_keeps [of s R] by (simp add: E_local_def kin_keeps_def split_beta)
next
  case False
  then show ?thesis by (simp add: E_local_def kin_keeps_def Let_def)
qed

lemma E_local_restore: "cache_consistent s R \<Longrightarrow> snd (E_local s R) = (R, s)"
  using E_kinetic_restore [of s R] by (simp add: E_local_def split_beta Let_def)

lemma dist_at_upper: "i < j \<Longrightarrow> dist_at s i j = dist_mat s (i, j) \<and> dist_at s j i = dist_mat s (i, j)"
  by (simp add: dist_at_def min_def max_def)

text \<open>
  C10. The constructor leaves the distance matrix zero on and below the diagonal, and
  \<open>initialize_distance_matrix\<close>, \<open>update_distance_matrix\<close> and the numeric kinetic energy
  leave every entry \<open>(i, j)\<close> with \<open>i \<ge> j\<close> as they found it; so these entries stay zero.
  Hence, on a consistent cache and for \<open>k < l\<close>, the read in (min, max) order gives the
  distance for \<open>(k, l)\<close> and for \<open>(l, k)\<close>, while the entry \<open>(l, k)\<close> itself is zero, which
  is not the distance unless the two particles are at the same place.
\<close>

theorem upper_triangle_only:
  "lower_zero (dist_mat (VMCSolver_new cfg al be)) \<and>
   (\<forall>i j. \<not> i < j \<longrightarrow>
      dist_mat (initialize_distance_matrix s R) (i, j) = dist_mat s (i, j) \<and>
      dist_mat (update_distance_matrix s p R) (i, j) = dist_mat s (i, j) \<and>
      dist_mat (snd (snd (E_kinetic s R))) (i, j) = dist_mat s (i, j)) \<and>
   (lower_zero (dist_mat s) \<longrightarrow>
      lower_zero (dist_mat (initialize_distance_matrix s R)) \<and>
      lower_zero (dist_mat (update_distance_matrix s p R)) \<and>
      lower_zero (dist_mat (snd (snd (E_kinetic s R))))) \<and>
   (lower_zero (dist_mat s) \<and> cache_consistent s R \<and> k < l \<and> l < n_particles (config s) \<longrightarrow>
      dist_at s k l = pair_dist (config s) R k l \<and>
      dist_at s l k = pair_dist (config s) R l k \<and>
      dist_mat s (l, k) = 0 \<and>
      (col (config s) R k \<noteq> col (config s) R l \<longrightarrow>
         dist_mat s (l, k) \<noteq> pair_dist (config s) R l k))"
proof -
  have new: "lower_zero (dist_mat (VMCSolver_new cfg al be))"
    by (simp add: lower_zero_def VMCSolver_new_def zeros_def)
  have kin: "\<not> i < j \<Longrightarrow> dist_mat (snd (snd (E_kinetic s R))) (i, j) = dist_mat s (i, j)" for i j
    using E_kinetic_keeps [of s R] by (simp add: kin_keeps_def)
  have writes: "\<forall>i j. \<not> i < j \<longrightarrow>
      dist_mat (initialize_distance_matrix s R) (i, j) = dist_mat s (i, j) \<and>
      dist_mat (update_distance_matrix s p R) (i, j) = dist_mat s (i, j) \<and>
      dist_mat (snd (snd (E_kinetic s R))) (i, j) = dist_mat s (i, j)"
    by (simp add: initialize_lower update_lower kin)
  have zero: "lower_zero (dist_mat s) \<longrightarrow>
      lower_zero (dist_mat (initialize_distance_matrix s R)) \<and>
      lower_zero (dist_mat (update_distance_matrix s p R)) \<and>
      lower_zero (dist_mat (snd (snd (E_kinetic s R))))"
    using writes by (simp add: lower_zero_def)
  have read: "lower_zero (dist_mat s) \<and> cache_consistent s R \<and> k < l \<and> l < n_particles (config s) \<longrightarrow>
      dist_at s k l = pair_dist (config s) R k l \<and>
      dist_at s l k = pair_dist (config s) R l k \<and>
      dist_mat s (l, k) = 0 \<and>
      (col (config s) R k \<noteq> col (config s) R l \<longrightarrow>
         dist_mat s (l, k) \<noteq> pair_dist (config s) R l k)"
  proof (intro impI, elim conjE)
    assume lz: "lower_zero (dist_mat s)" and cons: "cache_consistent s R"
      and kl: "k < l" "l < n_particles (config s)"
    have d: "dist_mat s (k, l) = pair_dist (config s) R k l"
      using cons kl by (simp add: cache_consistent_def)
    have z: "dist_mat s (l, k) = 0"
      using lz kl by (simp add: lower_zero_def)
    have "pair_dist (config s) R l k \<noteq> 0" if "col (config s) R k \<noteq> col (config s) R l"
      using that pair_dist_zero [of "config s" R l k] by auto
    then show "dist_at s k l = pair_dist (config s) R k l \<and>
      dist_at s l k = pair_dist (config s) R l k \<and>
      dist_mat s (l, k) = 0 \<and>
      (col (config s) R k \<noteq> col (config s) R l \<longrightarrow>
         dist_mat s (l, k) \<noteq> pair_dist (config s) R l k)"
      using dist_at_upper [OF kl(1), of s] d z pair_dist_commute [of "config s" R k l] by simp
  qed
  from new writes zero read show ?thesis by blast
qed

theorem upper_triangle_only_witness:
  "lower_zero (dist_mat s_w) \<and>
   lower_zero (dist_mat (update_distance_matrix s_w 1 R_w')) \<and>
   dist_at s_w 0 1 = 1 \<and> dist_at s_w 1 0 = 1 \<and> dist_mat s_w (1, 0) = 0 \<and>
   dist_mat s_w (1, 0) \<noteq> pair_dist cfg_w R_w 1 0"
proof -
  have z0: "lower_zero (dist_mat (VMCSolver_new cfg_w (1/2) 1))"
    using upper_triangle_only [of cfg_w "1/2" 1] by simp
  then have z1: "lower_zero (dist_mat s_w)"
    using upper_triangle_only [of _ _ _ "VMCSolver_new cfg_w (1/2) 1" R_w]
    by (simp add: s_w_def)
  then have z2: "lower_zero (dist_mat (update_distance_matrix s_w 1 R_w'))"
    using upper_triangle_only [of _ _ _ s_w R_w' 1] by simp
  have ne: "col (config s_w) R_w 0 \<noteq> col (config s_w) R_w 1"
    by (simp add: config_s_w cfg_w_def col_def R_w_def)
  have "pair_dist cfg_w R_w 0 1 = 1" "pair_dist cfg_w R_w 1 0 = 1"
    by (simp_all add: pair_dist_def cfg_w_def col_def R_w_def vsub_def norm2_single)
  then show ?thesis
    using upper_triangle_only [of cfg_w 0 0 s_w R_w 0 0 1] z1 z2 s_w_consistent ne
    by (simp add: config_s_w cfg_w_def)
qed

subsection \<open>Closed forms of the position loops\<close>

lemma centered_eq: "centered g = (Rep_canon (g 0) - 1/2, \<lambda>k. g (Suc k))"
  by (simp add: centered_def uniform_real_def draw_def)

lemma unif_eq: "unif g = (Rep_canon (g 0), \<lambda>k. g (Suc k))"
  by (simp add: unif_def uniform_real_def draw_def)


lemma propose_fold:
  "fold (\<lambda>d (Rn, g). case centered g of (c, g') \<Rightarrow> (Rn((d, i) := Ro (d, i) + sl * c), g'))
        [0..<m] (Rn :: mat, g)
     = (\<lambda>(d, j). if j = i \<and> d < m then Ro (d, i) + sl * (Rep_canon (g d) - 1/2) else Rn (d, j),
        \<lambda>k. g (k + m))"
proof (induction m)
  case 0
  show ?case by (simp add: fun_eq_iff)
next
  case (Suc m)
  define F where "F = (\<lambda>d (Rn :: mat, g). case centered g of
                          (c, g') \<Rightarrow> (Rn((d, i) := Ro (d, i) + sl * c), g'))"
  have "fold F [0..<Suc m] (Rn, g) = F m (fold F [0..<m] (Rn, g))" by simp
  also have "\<dots> = F m (\<lambda>(d, j). if j = i \<and> d < m then Ro (d, i) + sl * (Rep_canon (g d) - 1/2)
                                  else Rn (d, j),
                        \<lambda>k. g (k + m))"
    using Suc unfolding F_def by (simp only:)
  also have "\<dots> = (\<lambda>(d, j). if j = i \<and> d < Suc m then Ro (d, i) + sl * (Rep_canon (g d) - 1/2)
                                else Rn (d, j),
                      \<lambda>k. g (k + Suc m))"
    by (auto simp: F_def centered_eq fun_eq_iff less_Suc_eq)
  finally show ?case unfolding F_def .
qed

lemma R_new_propose:
  "R_new (propose i st) =
     (\<lambda>(d, j). if j = i \<and> d < dim_val (dims (config (sol st)))
               then R_old st (d, i)
                    + step_length (config (sol st)) * (Rep_canon (gen st d) - 1/2)
               else R_new st (d, j))"
  by (simp add: propose_def Let_def propose_fold)

lemma gen_propose: "gen (propose i st) = (\<lambda>k. gen st (k + dim_val (dims (config (sol st)))))"
  by (simp add: propose_def Let_def propose_fold)

lemma propose_other [simp]:
  "sol (propose i st) = sol st" "R_old (propose i st) = R_old st"
  "accepted_moves (propose i st) = accepted_moves st"
  "E_sum (propose i st) = E_sum st" "E2_sum (propose i st) = E2_sum st"
  by (simp_all add: propose_def Let_def split_beta)

lemma copy_col_eq:
  "copy_col cfg i From To =
     (\<lambda>(d, j). if j = i \<and> d < dim_val (dims cfg) then From (d, i) else To (d, j))"
proof -
  have "fold (\<lambda>d To. To((d, i) := From (d, i))) [0..<m] To
          = (\<lambda>(d, j). if j = i \<and> d < m then From (d, i) else To (d, j))" for m
    by (induction m) (auto simp: fun_eq_iff less_Suc_eq)
  then show ?thesis by (simp add: copy_col_def)
qed

lemma copy_col_same:
  "(\<forall>d j. j \<noteq> i \<or> dim_val (dims cfg) \<le> d \<longrightarrow> From (d, j) = To (d, j))
     \<Longrightarrow> copy_col cfg i From To = From"
  by (auto simp: copy_col_eq fun_eq_iff)

subsection \<open>One particle move keeps the invariant\<close>

lemma lower_zero_update: "lower_zero (dist_mat s) \<Longrightarrow> lower_zero (dist_mat (update_distance_matrix s p R))"
  by (simp add: lower_zero_def update_lower)

lemma lower_zero_initialize: "lower_zero (dist_mat s) \<Longrightarrow> lower_zero (dist_mat (initialize_distance_matrix s R))"
  by (simp add: lower_zero_def initialize_lower)

lemma trial_differs_in_column:
  "R_new st = R_old st \<Longrightarrow> \<forall>d j. j \<noteq> i \<longrightarrow> R_new (propose i st) (d, j) = R_old st (d, j)"
  by (simp add: R_new_propose)

lemma decide_accept:
  assumes "accept_test (fst (unif (gen tr))) (Psi (update_distance_matrix (sol tr) i (R_new tr)) (R_new tr)) po"
  shows "decide i (po, tr) =
           (Psi (update_distance_matrix (sol tr) i (R_new tr)) (R_new tr),
            tr\<lparr>sol := update_distance_matrix (sol tr) i (R_new tr), gen := snd (unif (gen tr)),
               accepted_moves := accepted_moves tr + 1,
               R_old := copy_col (config (sol tr)) i (R_new tr) (R_old tr)\<rparr>)"
  using assms by (simp add: decide_def Let_def split_beta)

lemma decide_reject:
  assumes "\<not> accept_test (fst (unif (gen tr))) (Psi (update_distance_matrix (sol tr) i (R_new tr)) (R_new tr)) po"
  shows "decide i (po, tr) =
           (po,
            tr\<lparr>sol := update_distance_matrix (update_distance_matrix (sol tr) i (R_new tr)) i (R_old tr),
               gen := snd (unif (gen tr)),
               R_new := copy_col (config (sol tr)) i (R_old tr) (R_new tr)\<rparr>)"
  using assms by (simp add: decide_def Let_def split_beta)

lemma decide_inv:
  assumes inv: "mc_inv st" and i: "i < n_particles (config (sol st))"
  shows "mc_inv (snd (decide i (po, propose i st)))"
proof -
  let ?tr = "propose i st"
  let ?s1 = "update_distance_matrix (sol ?tr) i (R_new ?tr)"
  from inv have eq: "R_new st = R_old st" and cons: "cache_consistent (sol st) (R_old st)"
    and lz: "lower_zero (dist_mat (sol st))" by (simp_all add: mc_inv_def)
  have diff: "\<forall>d j. j \<noteq> i \<longrightarrow> R_new ?tr (d, j) = R_old st (d, j)"
    using eq by (rule trial_differs_in_column)
  have cons1: "cache_consistent ?s1 (R_new ?tr)"
    using update_consistent [of i "sol st" "R_new ?tr" "R_old st"] i diff cons by simp
  show ?thesis
  proof (cases "accept_test (fst (unif (gen ?tr))) (Psi ?s1 (R_new ?tr)) po")
    case True
    have "copy_col (config (sol st)) i (R_new ?tr) (R_old st) = R_new ?tr"
      using eq by (intro copy_col_same) (auto simp: R_new_propose)
    then show ?thesis
      using cons1 lz by (simp add: decide_accept [OF True] mc_inv_def lower_zero_update)
  next
    case False
    have revert: "copy_col (config (sol st)) i (R_old st) (R_new ?tr) = R_old st"
      using eq by (auto simp: copy_col_eq R_new_propose fun_eq_iff)
    have "update_distance_matrix ?s1 i (R_old st) = sol st"
      using cons i by (simp add: update_update update_consistent_id)
    then show ?thesis
      using cons lz revert by (simp add: decide_reject [OF False] mc_inv_def)
  qed
qed

lemma config_decide [simp]: "config (sol (snd (decide i (po, tr)))) = config (sol tr)"
  by (simp add: decide_def Let_def split_beta)

lemma config_accumulate [simp]: "config (sol (accumulate st)) = config (sol st)"
  using E_local_keeps [of "sol st" "R_new st"] by (simp add: accumulate_def split_beta kin_keeps_def)

lemma accumulate_inv: "mc_inv st \<Longrightarrow> mc_inv (accumulate st)"
proof -
  assume inv: "mc_inv st"
  then have "cache_consistent (sol st) (R_new st)" by (simp add: mc_inv_def)
  then have "snd (E_local (sol st) (R_new st)) = (R_new st, sol st)" by (rule E_local_restore)
  then have "sol (accumulate st) = sol st" "R_new (accumulate st) = R_new st"
    "R_old (accumulate st) = R_old st"
    by (simp_all add: accumulate_def split_beta)
  with inv show ?thesis by (simp add: mc_inv_def)
qed

lemma metro_step_eq: "metro_step i (po, st) =
   (fst (decide i (po, propose i st)), accumulate (snd (decide i (po, propose i st))))"
  by (simp add: metro_step_def split_beta)

lemma config_metro_step [simp]: "config (sol (snd (metro_step i (po, st)))) = config (sol st)"
  by (simp add: metro_step_eq)

lemma metro_step_inv:
  "mc_inv st \<Longrightarrow> i < n_particles (config (sol st)) \<Longrightarrow> mc_inv (snd (metro_step i (po, st)))"
  by (simp add: metro_step_eq accumulate_inv decide_inv)

subsection \<open>The start of a run\<close>

lemma initial_positions_equal: "fst (initial_positions cfg g) = fst (snd (initial_positions cfg g))"
proof -
  let ?P = "\<lambda>st :: mat \<times> mat \<times> rand_gen. fst st = fst (snd st)"
  have "?P (initial_positions cfg g)"
    unfolding initial_positions_def
  proof (rule fold_inv)
    show "?P (zeros, zeros, g)" by simp
  next
    fix i and st :: "mat \<times> mat \<times> rand_gen"
    assume "?P st"
    then show "?P (fold (\<lambda>d (Ro, Rn, g). let (c, g') = centered g; v = step_length cfg * c
                             in (Ro((d, i) := v), Rn((d, i) := v), g'))
                    [0..<dim_val (dims cfg)] st)"
    proof (rule fold_inv)
      fix d and st' :: "mat \<times> mat \<times> rand_gen"
      assume "?P st'"
      then show "?P ((\<lambda>(Ro, Rn, g). let (c, g') = centered g; v = step_length cfg * c
                             in (Ro((d, i) := v), Rn((d, i) := v), g')) st')"
        by (cases st') (simp add: Let_def split_beta)
    qed
  qed
  then show ?thesis .
qed

lemma run_MC_init_inv: "lower_zero (dist_mat s) \<Longrightarrow> mc_inv (run_MC_init s g)"
  using initial_positions_equal [of "config s" g]
  by (simp add: run_MC_init_def split_beta mc_inv_def initialize_consistent lower_zero_initialize)

lemma reachable_inv: "reachable st \<Longrightarrow> mc_inv st"
proof (induction rule: reachable.induct)
  case (first_run cfg al be g)
  show ?case
    by (rule run_MC_init_inv) (simp add: lower_zero_def VMCSolver_new_def zeros_def)
next
  case (next_run st al be g)
  then show ?case by (intro run_MC_init_inv) (simp add: mc_inv_def)
next
  case (step st i Psi_old)
  then show ?case by (simp add: metro_step_inv)
qed

subsection \<open>The states of a run are reachable\<close>

lemma reachable_cycle: "reachable st \<Longrightarrow> reachable (cycle st)"
proof -
  assume r: "reachable st"
  let ?P = "\<lambda>pst :: real \<times> mc_state.
              reachable (snd pst) \<and> config (sol (snd pst)) = config (sol st)"
  have "?P (fold metro_step [0..<n_particles (config (sol st))] (Psi (sol st) (R_old st), st))"
  proof (rule fold_inv)
    show "?P (Psi (sol st) (R_old st), st)" using r by simp
  next
    fix i and pst :: "real \<times> mc_state"
    assume i: "i \<in> set [0..<n_particles (config (sol st))]" and p: "?P pst"
    obtain po st' where pst: "pst = (po, st')" by (cases pst) auto
    from p i have "reachable (snd (metro_step i (po, st')))"
      by (intro reachable.step) (simp_all add: pst)
    then show "?P (metro_step i pst)" using p by (simp add: pst)
  qed
  then show ?thesis by (simp add: cycle_def cycle_upto_def)
qed

lemma reachable_loop: "reachable (run_MC_init s g) \<Longrightarrow> reachable (run_MC_loop s n_cycles g)"
  unfolding run_MC_loop_def by (rule fold_inv) (simp_all add: reachable_cycle)

lemma reachable_first_run: "reachable (run_MC_loop (VMCSolver_new cfg al be) n_cycles g)"
  by (rule reachable_loop) (rule reachable.first_run)

lemma consistent_read:
  assumes cons: "cache_consistent s R" and lz: "lower_zero (dist_mat s)"
    and i: "i < n_particles (config s)" and j: "j < n_particles (config s)"
  shows "dist_at s i j = pair_dist (config s) R i j"
proof -
  consider "i < j" | "i = j" | "j < i" by linarith
  then show ?thesis
  proof cases
    case 1
    then show ?thesis using cons j dist_at_upper [OF 1, of s]
      by (simp add: cache_consistent_def)
  next
    case 2
    then show ?thesis using lz by (simp add: dist_at_def lower_zero_def pair_dist_self)
  next
    case 3
    then show ?thesis using cons i dist_at_upper [OF 3, of s]
        pair_dist_commute [of "config s" R i j]
      by (simp add: cache_consistent_def)
  qed
qed

lemma dist_at_commute: "dist_at s i j = dist_at s j i"
  by (simp add: dist_at_def min.commute max.commute)

lemma trial_state_fields [simp]:
  "sol (trial_state i st) = update_distance_matrix (sol st) i (R_new (propose i st))"
  "R_new (trial_state i st) = R_new (propose i st)"
  "R_old (trial_state i st) = R_old st"
  by (simp_all add: trial_state_def Let_def)

lemma trial_state_consistent:
  assumes "mc_inv st" and "p < n_particles (config (sol st))"
  shows "cache_consistent (sol (trial_state p st)) (R_new (trial_state p st))"
    and "lower_zero (dist_mat (sol (trial_state p st)))"
proof -
  from assms(1) have eq: "R_new st = R_old st" and cons: "cache_consistent (sol st) (R_old st)"
    and lz: "lower_zero (dist_mat (sol st))" by (simp_all add: mc_inv_def)
  have diff: "\<forall>d j. j \<noteq> p \<longrightarrow> R_new (propose p st) (d, j) = R_old st (d, j)"
    using eq by (rule trial_differs_in_column)
  show "cache_consistent (sol (trial_state p st)) (R_new (trial_state p st))"
    using update_consistent [OF assms(2) diff cons] by simp
  show "lower_zero (dist_mat (sol (trial_state p st)))"
    using lz by (simp add: lower_zero_update)
qed

text \<open>
  C4, amended. In every state that a solver reaches between two particle moves, the read of
  the cache in (min, max) order gives the same value for \<open>(i, j)\<close> and for \<open>(j, i)\<close>, and this
  value is the Euclidean distance of the particles \<open>i\<close> and \<open>j\<close> in the current (accepted)
  positions \<open>R_old\<close>. In the middle of the move of a particle \<open>p\<close> the read is symmetric as
  well, and its value is the distance in the trial positions \<open>R_new\<close>.
\<close>

theorem cache_symmetric_and_exact:
  assumes "reachable st" and "i < n_particles (config (sol st))" and "j < n_particles (config (sol st))"
  shows "dist_at (sol st) i j = dist_at (sol st) j i \<and>
         dist_at (sol st) i j = pair_dist (config (sol st)) (R_old st) i j \<and>
         (\<forall>p. p < n_particles (config (sol st)) \<longrightarrow>
            dist_at (sol (trial_state p st)) i j = dist_at (sol (trial_state p st)) j i \<and>
            dist_at (sol (trial_state p st)) i j
              = pair_dist (config (sol st)) (R_new (trial_state p st)) i j)"
proof -
  from assms(1) have inv: "mc_inv st" by (rule reachable_inv)
  then have cons: "cache_consistent (sol st) (R_old st)" and lz: "lower_zero (dist_mat (sol st))"
    by (simp_all add: mc_inv_def)
  have now: "dist_at (sol st) i j = pair_dist (config (sol st)) (R_old st) i j"
    using cons lz assms(2,3) by (rule consistent_read)
  have mid: "dist_at (sol (trial_state p st)) i j
               = pair_dist (config (sol st)) (R_new (trial_state p st)) i j"
    if p: "p < n_particles (config (sol st))" for p
    using consistent_read [OF trial_state_consistent [OF inv p], of i j] assms(2,3) by simp
  from now mid show ?thesis by (simp add: dist_at_commute)
qed

subsection \<open>A concrete run\<close>

lemma initial_positions_w:
  "initial_positions cfg_w g_w =
     (zeros((0, 0) := 0, (0, 1) := 1/4, (0, 2) := - 1/4),
      zeros((0, 0) := 0, (0, 1) := 1/4, (0, 2) := - 1/4), \<lambda>k. g_w (k + 3))"
  by (simp add: initial_positions_def cfg_w_def centered_eq numeral_3_eq_3 numeral_2_eq_2 g_w_def
        Abs_canon_inverse)

lemma st_w_fields:
  "R_old st_w = zeros((0, 0) := 0, (0, 1) := 1/4, (0, 2) := - 1/4)"
  "R_new st_w = R_old st_w"
  "gen st_w = (\<lambda>k. g_w (k + 3))"
  "config (sol st_w) = cfg_w"
  "accepted_moves st_w = 0"
  by (simp_all add: st_w_def run_MC_init_def initial_positions_w s_zero_def VMCSolver_new_def)

lemma reachable_st_w: "reachable st_w"
  unfolding st_w_def s_zero_def by (rule reachable.first_run)

text \<open>
  C4, as stated, fails in the middle of a move: from the start \<open>st_w\<close> (particles at 0,
  1/4 and -1/4) the trial move takes particle 0 to 1/8, and after the update of the cache
  for it the read for the pair (0, 1) gives 1/8, while the distance in the accepted
  positions \<open>R_old\<close> is 1/4.
\<close>

theorem cache_during_move:
  "dist_at (sol (trial_state 0 st_w)) 0 1 = 1/8 \<and>
   pair_dist (config (sol (trial_state 0 st_w))) (R_old (trial_state 0 st_w)) 0 1 = 1/4"
  by (simp add: dist_at_def dist_update R_new_propose st_w_fields pair_dist_def col_def cfg_w_def
        vsub_def norm2_single zeros_def g_w_def Abs_canon_inverse)

theorem cache_symmetric_and_exact_witness:
  "dist_at (sol st_w) 2 1 = dist_at (sol st_w) 1 2 \<and> dist_at (sol st_w) 2 1 = 1/2 \<and>
   dist_at (sol (trial_state 0 st_w)) 1 0 = 1/8"
proof -
  have n: "1 < n_particles (config (sol st_w))" "2 < n_particles (config (sol st_w))"
    "0 < n_particles (config (sol st_w))"
    by (simp_all add: st_w_fields cfg_w_def)
  have now: "pair_dist cfg_w (R_old st_w) 2 1 = 1/2"
    by (simp add: st_w_fields pair_dist_def col_def cfg_w_def vsub_def norm2_single zeros_def)
  have mid: "pair_dist cfg_w (R_new (trial_state 0 st_w)) 1 0 = 1/8"
    by (simp add: R_new_propose st_w_fields pair_dist_def col_def cfg_w_def vsub_def norm2_single
          zeros_def g_w_def Abs_canon_inverse)
  from cache_symmetric_and_exact [OF reachable_st_w n(2) n(1)]
  have a: "dist_at (sol st_w) 2 1 = dist_at (sol st_w) 1 2" "dist_at (sol st_w) 2 1 = 1/2"
    using now by (simp_all add: st_w_fields)
  from cache_symmetric_and_exact [OF reachable_st_w n(1) n(3)] n(3)
  have "dist_at (sol (trial_state 0 st_w)) 1 0
          = pair_dist (config (sol st_w)) (R_new (trial_state 0 st_w)) 1 0"
    by blast
  then have "dist_at (sol (trial_state 0 st_w)) 1 0 = 1/8"
    using mid by (simp add: st_w_fields)
  with a show ?thesis by simp
qed


subsection \<open>The acceptance test\<close>

lemma dbl_bounds: "0 < dbl_underflow" "dbl_underflow < 1/2" "1 < dbl_overflow"
proof -
  show "0 < dbl_underflow" by (simp add: dbl_underflow_def)
  have "(2::real) ^ 1 < 2 ^ 1075" by (rule power_strict_increasing) simp_all
  then have "(1::real) / 2 ^ 1075 < 1 / 2 ^ 1" by (intro divide_strict_left_mono) simp_all
  then show "dbl_underflow < 1/2" by (simp add: dbl_underflow_def)
  define A :: real where "A = 2 ^ 970"
  have "1 < A" unfolding A_def by (rule one_less_power) simp_all
  moreover have "A * 2 \<le> 2 ^ 1024"
  proof -
    have "(2::real) ^ 971 \<le> 2 ^ 1024" by (rule power_increasing) simp_all
    then show ?thesis by (simp add: A_def)
  qed
  ultimately have "1 < 2 ^ 1024 - A" by linarith
  then show "1 < dbl_overflow" by (simp add: dbl_overflow_def A_def)
qed

lemma fl_zero [simp]: "fl 0 = Fin 0"
  using dbl_bounds by (simp add: fl_def)

lemma fl_in_range: "in_double_range x \<Longrightarrow> fl x = Fin x"
  using dbl_bounds by (auto simp: in_double_range_def fl_def)




lemma accept_test_exact:
  assumes "po \<noteq> 0" "in_double_range (pn * pn)" "in_double_range (po * po)"
    "in_double_range (pn * pn / (po * po))"
  shows "accept_test u pn po \<longleftrightarrow> u \<le> (pn / po)\<^sup>2"
  using assms by (simp add: accept_test_def Let_def fl_in_range power2_eq_square)









lemma cycle_upto_0 [simp]: "cycle_upto 0 st = (Psi (sol st) (R_old st), st)"
  by (simp add: cycle_upto_def)







lemma Psi_one_particle:
  assumes "config s = cfg" "interaction cfg = InteractionOFF" "dims cfg = DIM_1" "n_particles cfg = 1"
  shows "Psi s R = exp (- alpha s * (R (0, 0) * R (0, 0)))"
  using assms by (simp add: Psi_def Psi_g_def Psi_f_def col_def dot_def)






lemma st_1_fields:
  "R_old st_1 = zeros" "R_new st_1 = zeros"
  "gen st_1 = (\<lambda>k. g_w (k + 1))" "config (sol st_1) = cfg_1" "alpha (sol st_1) = 1/2"
  "accepted_moves st_1 = 0" "E_sum st_1 = 0" "E2_sum st_1 = 0"
proof -
  have init: "initial_positions cfg_1 g_w = (zeros, zeros, \<lambda>k. g_w (k + 1))"
    by (simp add: initial_positions_def cfg_1_def centered_eq g_w_def Abs_canon_inverse zeros_def
          fun_eq_iff)
  show "R_old st_1 = zeros" "R_new st_1 = zeros"
  "gen st_1 = (\<lambda>k. g_w (k + 1))" "config (sol st_1) = cfg_1" "alpha (sol st_1) = 1/2"
  "accepted_moves st_1 = 0" "E_sum st_1 = 0" "E2_sum st_1 = 0"
    by (simp_all add: st_1_def run_MC_init_def init s_1_def VMCSolver_new_def
          initialize_distance_matrix_def)
qed


lemma trial_1:
  "R_new (propose 0 st_1) = zeros((0, 0) := 1/4)"
  "fst (unif (gen (propose 0 st_1))) = 1/4"
  by (auto simp: R_new_propose gen_propose unif_eq st_1_fields cfg_1_def g_w_def Abs_canon_inverse
        fun_eq_iff zeros_def)

lemma Psi_1:
  "Psi (sol st_1) (R_old st_1) = 1"
  "Psi (update_distance_matrix (sol st_1) 0 (R_new (propose 0 st_1))) (R_new (propose 0 st_1))
     = exp (- (1/32))"
proof -
  show "Psi (sol st_1) (R_old st_1) = 1"
    using Psi_one_particle [of "sol st_1" cfg_1 "R_old st_1"]
    by (simp add: st_1_fields cfg_1_def zeros_def)
  have "alpha (update_distance_matrix (sol st_1) 0 (R_new (propose 0 st_1))) = 1/2"
    by (simp add: update_distance_matrix_def Let_def st_1_fields)
  then show "Psi (update_distance_matrix (sol st_1) 0 (R_new (propose 0 st_1))) (R_new (propose 0 st_1))
     = exp (- (1/32))"
    using Psi_one_particle [of "update_distance_matrix (sol st_1) 0 (R_new (propose 0 st_1))" cfg_1
            "R_new (propose 0 st_1)"]
    by (simp add: st_1_fields cfg_1_def trial_1)
qed

lemma in_double_range_unit: "1/2 \<le> x \<Longrightarrow> x \<le> 1 \<Longrightarrow> in_double_range x"
  using dbl_bounds by (auto simp: in_double_range_def)

lemma exp_sixteenth: "1/2 \<le> exp (- (1/16) :: real)" "exp (- (1/16) :: real) \<le> 1"
  using exp_ge_add_one_self [of "- (1/16) :: real"] by simp_all



subsection \<open>The int product\<close>

lemma int_mul_exact:
  assumes "- (2 ^ 31) \<le> x * y" "x * y < 2 ^ 31"
  shows "int_mul x y = x * y"
proof -
  have "int_mul x y = sint (word_of_int (x * y) :: 32 word)"
    by (simp add: int_mul_def)
  also have "\<dots> = signed_take_bit (LENGTH(32) - 1) (x * y)"
    by (rule sint_sbintrunc')
  also have "\<dots> = signed_take_bit 31 (x * y)"
    by simp
  also have "\<dots> = x * y"
    using assms by (intro signed_take_bit_int_eq_self) simp_all
  finally show ?thesis .
qed

subsection \<open>Counting the accepted moves\<close>

lemma accepted_accumulate [simp]: "accepted_moves (accumulate st) = accepted_moves st"
  by (simp add: accumulate_def split_beta)

lemma accepted_decide:
  "accepted_moves (snd (decide i (po, tr))) = accepted_moves tr \<or>
   accepted_moves (snd (decide i (po, tr))) = accepted_moves tr + 1"
  by (simp add: decide_def Let_def split_beta)

lemma accepted_metro_step:
  "accepted_moves st \<le> accepted_moves (snd (metro_step i (po, st))) \<and>
   accepted_moves (snd (metro_step i (po, st))) \<le> accepted_moves st + 1"
  using accepted_decide [of i po "propose i st"] by (auto simp: metro_step_eq)

text \<open>A counter that a loop body raises by at most \<open>b\<close> is raised by at most \<open>b\<close> per turn.\<close>

lemma fold_counter:
  fixes c :: "'s \<Rightarrow> int"
  assumes "I st" and "0 \<le> b"
    and "\<And>x st. I st \<Longrightarrow> I (f x st) \<and> c st \<le> c (f x st) \<and> c (f x st) \<le> c st + b"
  shows "I (fold f xs st) \<and> c st \<le> c (fold f xs st) \<and> c (fold f xs st) \<le> c st + b * int (length xs)"
  using assms(1)
proof (induction xs arbitrary: st)
  case Nil
  then show ?case by simp
next
  case (Cons x xs)
  from assms(3) [OF Cons.prems, of x] Cons.IH [of "f x st"] show ?case
    by (auto simp: algebra_simps)
qed

lemma cycle_counts:
  "config (sol (cycle st)) = config (sol st) \<and>
   accepted_moves st \<le> accepted_moves (cycle st) \<and>
   accepted_moves (cycle st) \<le> accepted_moves st + int (n_particles (config (sol st)))"
proof -
  let ?I = "\<lambda>pst :: real \<times> mc_state. config (sol (snd pst)) = config (sol st)"
  let ?c = "\<lambda>pst :: real \<times> mc_state. accepted_moves (snd pst)"
  have "?I (fold metro_step [0..<n_particles (config (sol st))] (Psi (sol st) (R_old st), st)) \<and>
        ?c (Psi (sol st) (R_old st), st)
          \<le> ?c (fold metro_step [0..<n_particles (config (sol st))] (Psi (sol st) (R_old st), st)) \<and>
        ?c (fold metro_step [0..<n_particles (config (sol st))] (Psi (sol st) (R_old st), st))
          \<le> ?c (Psi (sol st) (R_old st), st) + 1 * int (length [0..<n_particles (config (sol st))])"
  proof (rule fold_counter)
    show "?I (Psi (sol st) (R_old st), st)" by simp
    show "(0::int) \<le> 1" by simp
  next
    fix i and pst :: "real \<times> mc_state"
    assume "?I pst"
    then show "?I (metro_step i pst) \<and> ?c pst \<le> ?c (metro_step i pst) \<and> ?c (metro_step i pst) \<le> ?c pst + 1"
      using accepted_metro_step [of "snd pst" i "fst pst"] by (cases pst) simp
  qed
  then show ?thesis by (simp add: cycle_def cycle_upto_def)
qed

lemma run_MC_init_fields [simp]:
  "config (sol (run_MC_init s g)) = config s" "accepted_moves (run_MC_init s g) = 0"
  "alpha (sol (run_MC_init s g)) = alpha s" "beta (sol (run_MC_init s g)) = beta s"
  by (simp_all add: run_MC_init_def split_beta)

lemma loop_counts:
  "config (sol (run_MC_loop s n_cycles g)) = config s \<and>
   0 \<le> accepted_moves (run_MC_loop s n_cycles g) \<and>
   accepted_moves (run_MC_loop s n_cycles g)
     \<le> int (n_particles (config s)) * int (length [1..n_cycles])"
proof -
  let ?I = "\<lambda>st :: mc_state. config (sol st) = config s"
  have "?I (fold (\<lambda>c st. cycle st) [1..n_cycles] (run_MC_init s g)) \<and>
        accepted_moves (run_MC_init s g)
          \<le> accepted_moves (fold (\<lambda>c st. cycle st) [1..n_cycles] (run_MC_init s g)) \<and>
        accepted_moves (fold (\<lambda>c st. cycle st) [1..n_cycles] (run_MC_init s g))
          \<le> accepted_moves (run_MC_init s g)
             + int (n_particles (config s)) * int (length [1..n_cycles])"
  proof (rule fold_counter)
    show "?I (run_MC_init s g)" by simp
    show "0 \<le> int (n_particles (config s))" by simp
  next
    fix c and st :: mc_state
    assume "?I st"
    then show "?I (cycle st) \<and> accepted_moves st \<le> accepted_moves (cycle st) \<and>
               accepted_moves (cycle st) \<le> accepted_moves st + int (n_particles (config s))"
      using cycle_counts [of st] by simp
  qed
  then show ?thesis by (simp add: run_MC_loop_def)
qed

lemma length_upto_1: "int (length [1..n]) = (if n < 1 then 0 else n)"
  by simp


lemma finish_exact:
  assumes nz: "n_cycles * int (n_particles (config (sol st))) \<noteq> 0"
    and lo: "- (2 ^ 31) \<le> n_cycles * int (n_particles (config (sol st)))"
    and hi: "n_cycles * int (n_particles (config (sol st))) < 2 ^ 31"
  shows "finish n_cycles st =
     \<lparr>E = Some (E_sum st / real_of_int (n_cycles * int (n_particles (config (sol st))))),
      E2 = Some (E2_sum st / real_of_int (n_cycles * int (n_particles (config (sol st))))),
      variance = Some (E2_sum st / real_of_int (n_cycles * int (n_particles (config (sol st))))
                   - E_sum st / real_of_int (n_cycles * int (n_particles (config (sol st))))
                     * (E_sum st / real_of_int (n_cycles * int (n_particles (config (sol st)))))),
      res_alpha = alpha (sol st), res_beta = beta (sol st),
      acceptance_rate = Some (real_of_int (accepted_moves st)
                              / real_of_int (n_cycles * int (n_particles (config (sol st)))))\<rparr>"
proof -
  have m: "int_mul n_cycles (int (n_particles (config (sol st))))
             = n_cycles * int (n_particles (config (sol st)))"
    using lo hi by (rule int_mul_exact)
  have "real_of_int (n_cycles * int (n_particles (config (sol st)))) \<noteq> 0"
    using nz by (simp only: of_int_eq_0_iff not_False_eq_True)
  then show ?thesis
    unfolding finish_def Let_def m by (simp add: fdiv_def)
qed

text \<open>
  C8, as stated, fails for a run of zero cycles: every average is then the quotient of zero
  by zero, which is not a number, so the acceptance rate does not lie in [0, 1].
\<close>

theorem run_MC_zero_cycles:
  "acceptance_rate (fst (run_MC s_zero 0 g_w)) = None \<and>
   E (fst (run_MC s_zero 0 g_w)) = None \<and>
   E2 (fst (run_MC s_zero 0 g_w)) = None \<and>
   variance (fst (run_MC s_zero 0 g_w)) = None"
  by (simp add: run_MC_def run_MC_loop_def finish_def Let_def fdiv_def int_mul_def)


text \<open>
  C8, amended. Let the product \<open>n_cycles * n_particles\<close> be an \<open>int\<close> other than zero, and
  \<open>n_cycles\<close> be below the largest \<open>int\<close> (the loop counter does not overflow). Then the
  record that \<open>run_MC\<close> returns holds the energy sum and the sum of the squared energies,
  each divided by \<open>n_cycles * n_particles\<close>, the variance as the mean squared energy minus
  the square of the mean energy, and the accepted moves divided by \<open>n_cycles * n_particles\<close>,
  which lies in [0, 1].
\<close>

theorem run_MC_results:
  assumes nz: "n_cycles * int (n_particles (config s)) \<noteq> 0"
    and lo: "- (2 ^ 31) \<le> n_cycles * int (n_particles (config s))"
    and hi: "n_cycles * int (n_particles (config s)) < 2 ^ 31"
    and cnt: "n_cycles < 2 ^ 31 - 1"
  shows "let st = run_MC_loop s n_cycles g;
             res = fst (run_MC s n_cycles g);
             N = real_of_int (n_cycles * int (n_particles (config s)))
         in E res = Some (E_sum st / N) \<and>
            E2 res = Some (E2_sum st / N) \<and>
            variance res = Some (E2_sum st / N - (E_sum st / N) * (E_sum st / N)) \<and>
            acceptance_rate res = Some (real_of_int (accepted_moves st) / N) \<and>
            0 \<le> real_of_int (accepted_moves st) / N \<and>
            real_of_int (accepted_moves st) / N \<le> 1"
proof -
  let ?st = "run_MC_loop s n_cycles g"
  let ?n = "int (n_particles (config s))"
  let ?N = "real_of_int (n_cycles * ?n)"
  have cfg: "config (sol ?st) = config s"
    and acc0: "0 \<le> accepted_moves ?st"
    and acc1: "accepted_moves ?st \<le> ?n * int (length [1..n_cycles])"
    using loop_counts [of s n_cycles g] by simp_all
  have fin: "fst (run_MC s n_cycles g) = finish n_cycles ?st"
    by (simp add: run_MC_def Let_def)
  have res: "E (finish n_cycles ?st) = Some (E_sum ?st / ?N)"
    "E2 (finish n_cycles ?st) = Some (E2_sum ?st / ?N)"
    "variance (finish n_cycles ?st) = Some (E2_sum ?st / ?N - (E_sum ?st / ?N) * (E_sum ?st / ?N))"
    "acceptance_rate (finish n_cycles ?st) = Some (real_of_int (accepted_moves ?st) / ?N)"
    using finish_exact [of n_cycles ?st] nz lo hi by (simp_all add: cfg)
  have rate: "0 \<le> real_of_int (accepted_moves ?st) / ?N \<and> real_of_int (accepted_moves ?st) / ?N \<le> 1"
  proof (cases "1 \<le> n_cycles")
    case True
    then have le: "accepted_moves ?st \<le> n_cycles * ?n"
      using acc1 by (simp add: mult.commute)
    have pos: "0 < n_cycles * ?n"
      using nz True by (simp add: zero_less_mult_iff)
    have "real_of_int (accepted_moves ?st) \<le> ?N" using le by linarith
    moreover have "0 < ?N" using pos by linarith
    moreover have "0 \<le> real_of_int (accepted_moves ?st)" using acc0 by simp
    ultimately show ?thesis by simp
  next
    case False
    then have "accepted_moves ?st = 0" using acc0 acc1 by simp
    then show ?thesis by simp
  qed
  show ?thesis
    unfolding Let_def fin using res rate by simp
qed

lemma E_local_cfg_1:
  assumes "config s = cfg_1" "alpha s = 1/2"
  shows "E_local s R = (1/2, R, s)"
  by (simp add: assms E_local_def E_local_k_def V_ext_def V_int_def r_k_skewed_def
        one_body_beta_term_def trunc_int_def col_def dot_def cfg_1_def Let_def field_simps)

lemma accept_1: "accept_test (1/4) (exp (- (1/32))) 1"
proof -
  have sq: "exp (- (1/32)) * exp (- (1/32)) = exp (- (1/16) :: real)"
    by (simp add: exp_add [symmetric])
  have "in_double_range (exp (- (1/32)) * exp (- (1/32)) :: real)" "in_double_range (1 * 1 :: real)"
    "in_double_range (exp (- (1/32)) * exp (- (1/32)) / (1 * 1) :: real)"
    using exp_sixteenth by (simp_all add: sq in_double_range_unit)
  moreover have "(1/4 :: real) \<le> (exp (- (1/32)) / 1)\<^sup>2"
    using exp_sixteenth by (simp add: power2_eq_square sq)
  ultimately show ?thesis using accept_test_exact [of 1 "exp (- (1/32))" "1/4"] by simp
qed

lemma run_s_1:
  "E_sum (run_MC_loop s_1 1 g_w) = 1/2" "E2_sum (run_MC_loop s_1 1 g_w) = 1/4"
  "accepted_moves (run_MC_loop s_1 1 g_w) = 1"
proof -
  let ?dec = "decide 0 (1, propose 0 st_1)"
  have acc: "accept_test (fst (unif (gen (propose 0 st_1))))
               (Psi (update_distance_matrix (sol (propose 0 st_1)) 0 (R_new (propose 0 st_1)))
                    (R_new (propose 0 st_1))) 1"
    using accept_1 Psi_1(2) by (simp add: trial_1(2))
  have d: "accepted_moves (snd ?dec) = 1" "E_sum (snd ?dec) = 0" "E2_sum (snd ?dec) = 0"
    "config (sol (snd ?dec)) = cfg_1" "alpha (sol (snd ?dec)) = 1/2"
    using decide_accept [where i = 0, OF acc]
    by (simp_all add: st_1_fields update_distance_matrix_def Let_def)
  have a: "accumulate (snd ?dec) = (snd ?dec)\<lparr>E_sum := 1/2, E2_sum := 1/4\<rparr>"
    using E_local_cfg_1 [OF d(4) d(5), of "R_new (snd ?dec)"] by (simp add: accumulate_def d)
  have "run_MC_loop s_1 1 g_w = cycle st_1"
    by (simp add: run_MC_loop_def upto.simps st_1_def)
  also have "\<dots> = accumulate (snd ?dec)"
    using Psi_1(1)
    by (simp add: cycle_def cycle_upto_def st_1_fields cfg_1_def metro_step_eq)
  finally have "run_MC_loop s_1 1 g_w = (snd ?dec)\<lparr>E_sum := 1/2, E2_sum := 1/4\<rparr>"
    using a by simp
  then show "E_sum (run_MC_loop s_1 1 g_w) = 1/2" "E2_sum (run_MC_loop s_1 1 g_w) = 1/4"
    "accepted_moves (run_MC_loop s_1 1 g_w) = 1"
    using d by simp_all
qed

theorem run_MC_results_witness:
  "E (fst (run_MC s_1 1 g_w)) = Some (1/2) \<and> E2 (fst (run_MC s_1 1 g_w)) = Some (1/4) \<and>
   variance (fst (run_MC s_1 1 g_w)) = Some 0 \<and> acceptance_rate (fst (run_MC s_1 1 g_w)) = Some 1"
proof -
  have c: "config s_1 = cfg_1" by (simp add: s_1_def VMCSolver_new_def)
  have "(1::int) * int (n_particles (config s_1)) \<noteq> 0"
    "- (2 ^ 31) \<le> (1::int) * int (n_particles (config s_1))"
    "(1::int) * int (n_particles (config s_1)) < 2 ^ 31" "(1::int) < 2 ^ 31 - 1"
    by (simp_all add: c cfg_1_def)
  from run_MC_results [OF this, of g_w] show ?thesis
    by (simp add: Let_def run_s_1 c cfg_1_def)
qed

subsection \<open>The sweep\<close>

lemma length_linspace [simp]: "length (linspace lo hi n) = n"
  by (simp add: linspace_def)

lemma count_lines_append [simp]: "count_lines (xs @ ys) = count_lines xs + count_lines ys"
  by (simp add: count_lines_def)

lemma vmc_point_fields:
  "evaluated (vmc_point run n_cycles be v)
     = evaluated v @ [fst (run ((v_sol v)\<lparr>beta := be\<rparr>) n_cycles (v_gen v))]"
  "best (vmc_point run n_cycles be v)
     = (if variance_less (fst (run ((v_sol v)\<lparr>beta := be\<rparr>) n_cycles (v_gen v))) (best v)
        then fst (run ((v_sol v)\<lparr>beta := be\<rparr>) n_cycles (v_gen v)) else best v)"
  "count_lines (v_out (vmc_point run n_cycles be v)) = count_lines (v_out v) + 1"
  "v_sol (vmc_point run n_cycles be v) = fst (snd (run ((v_sol v)\<lparr>beta := be\<rparr>) n_cycles (v_gen v)))"
  "\<exists>l. v_out (vmc_point run n_cycles be v) = v_out v @ l \<and> count_lines l = 1"
  by (simp_all add: vmc_point_def Let_def split_beta count_lines_def)

lemma best_below_point: "best_below v \<Longrightarrow> best_below (vmc_point run n_cycles be v)"
proof -
  assume "best_below v"
  then obtain b where b: "variance (best v) = Some b"
    and low: "\<forall>r\<in>set (evaluated v). \<forall>y. variance r = Some y \<longrightarrow> b \<le> y"
    by (auto simp: best_below_def)
  let ?res = "fst (run ((v_sol v)\<lparr>beta := be\<rparr>) n_cycles (v_gen v))"
  show ?thesis
  proof (cases "variance_less ?res (best v)")
    case True
    then obtain x where x: "variance ?res = Some x" "x < b"
      using b by (auto simp: variance_less_def split: option.splits)
    have "\<forall>r\<in>set (evaluated v @ [?res]). \<forall>y. variance r = Some y \<longrightarrow> x \<le> y"
      using low x by fastforce
    then show ?thesis
      using True x by (simp add: best_below_def vmc_point_fields)
  next
    case False
    have "\<forall>y. variance ?res = Some y \<longrightarrow> b \<le> y"
      using False b by (auto simp: variance_less_def)
    then have "\<forall>r\<in>set (evaluated v @ [?res]). \<forall>y. variance r = Some y \<longrightarrow> b \<le> y"
      using low by auto
    then show ?thesis
      using False b by (simp add: best_below_def vmc_point_fields)
  qed
qed

lemma sweep_inv_point:
  assumes inv: "sweep_inv pre start v"
  shows "sweep_inv pre start (vmc_point run n_cycles be v)"
proof -
  from inv obtain ls where ls: "v_out v = pre @ ls" "count_lines ls = length (evaluated v)"
    and bb: "best_below v" and org: "best v = start \<or> best v \<in> set (evaluated v)"
    by (auto simp: sweep_inv_def)
  obtain l where l: "v_out (vmc_point run n_cycles be v) = v_out v @ l" "count_lines l = 1"
    using vmc_point_fields(5) [of run n_cycles be v] by blast
  have out: "v_out (vmc_point run n_cycles be v) = pre @ (ls @ l)"
    "count_lines (ls @ l) = length (evaluated (vmc_point run n_cycles be v))"
    using ls l by (simp_all add: vmc_point_fields)
  have org': "best (vmc_point run n_cycles be v) = start \<or>
              best (vmc_point run n_cycles be v) \<in> set (evaluated (vmc_point run n_cycles be v))"
    using org by (auto simp: vmc_point_fields)
  from out org' best_below_point [OF bb] show ?thesis
    unfolding sweep_inv_def by blast
qed

lemma length_evaluated_point [simp]:
  "length (evaluated (vmc_point run n_cycles be v)) = Suc (length (evaluated v))"
  by (simp add: vmc_point_fields)

lemma length_evaluated_betas:
  "length (evaluated (fold (vmc_point run n_cycles) betas v)) = length (evaluated v) + length betas"
  by (induction betas arbitrary: v) simp_all

lemma length_evaluated_grid:
  "length (evaluated (fold (\<lambda>al v. fold (vmc_point run n_cycles) betas
                               (v\<lparr>v_sol := (v_sol v)\<lparr>alpha := al\<rparr>\<rparr>)) alphas v))
     = length (evaluated v) + length alphas * length betas"
  by (induction alphas arbitrary: v) (simp_all add: length_evaluated_betas)

lemma sweep_inv_grid:
  assumes inv: "sweep_inv pre start v"
  shows "sweep_inv pre start
           (fold (\<lambda>al v. fold (vmc_point run n_cycles) betas (v\<lparr>v_sol := (v_sol v)\<lparr>alpha := al\<rparr>\<rparr>))
                 alphas v)"
  using inv
proof (rule fold_inv)
  fix al v'
  assume "sweep_inv pre start v'"
  then have "sweep_inv pre start (v'\<lparr>v_sol := (v_sol v')\<lparr>alpha := al\<rparr>\<rparr>)"
    by (simp add: sweep_inv_def best_below_def)
  then show "sweep_inv pre start
               (fold (vmc_point run n_cycles) betas (v'\<lparr>v_sol := (v_sol v')\<lparr>alpha := al\<rparr>\<rparr>))"
    by (rule fold_inv) (rule sweep_inv_point)
qed

lemma count_lines_Cons: "count_lines (x # xs) = newlines x + count_lines xs"
  by (simp add: count_lines_def)

lemma count_lines_Nil: "count_lines [] = 0"
  by (simp add: count_lines_def)

lemma newlines_header: "length (filter (\<lambda>c. c = CHR 0x0A) header) = Suc 0"
  by (simp add: header_def)

lemma best_below_le:
  "best_below v \<Longrightarrow> r \<in> set (evaluated v) \<Longrightarrow> variance r \<noteq> None \<Longrightarrow> variance_le (best v) r"
  by (auto simp: best_below_def variance_le_def)

text \<open>
  C9, as stated, fails for a sweep whose runs have zero cycles: the variance of the one
  grid point is then not a number, the test \<open>res.variance < best.variance\<close> fails, and the
  record returned keeps the variance \<open>DBL_MAX\<close> it started with, which is not at most the
  variance of the grid point.
\<close>

theorem vmc_zero_cycles:
  "variance (hd (evaluated (vmc s_zero 0 [] 0 1 1 1 1 1 g_w res_junk))) = None \<and>
   variance (best (vmc s_zero 0 [] 0 1 1 1 1 1 g_w res_junk)) = Some DBL_MAX \<and>
   \<not> variance_le (best (vmc s_zero 0 [] 0 1 1 1 1 1 g_w res_junk))
                  (hd (evaluated (vmc s_zero 0 [] 0 1 1 1 1 1 g_w res_junk)))"
proof -
  have r: "variance (fst (run_MC s 0 g)) = None" if "config s = cfg_w" for s g
    using that
    by (simp add: run_MC_def run_MC_loop_def finish_def Let_def fdiv_def int_mul_def cfg_w_def)
  have c: "config (s_zero\<lparr>alpha := 1, beta := 1\<rparr>) = cfg_w"
    by (simp add: s_zero_def VMCSolver_new_def)
  show ?thesis
    using r [OF c, of g_w]
    by (simp add: vmc_def vmc_with_def Let_def linspace_def vmc_point_fields variance_less_def
          variance_le_def res_junk_def)
qed

text \<open>
  C9, amended. For grids of \<open>alpha_n\<close> and \<open>beta_n\<close> points the sweep appends to the stream the
  header line, then lines with \<open>alpha_n * beta_n\<close> newlines in all, one for each grid point,
  then a flush; so it adds \<open>alpha_n * beta_n + 1\<close> lines. The run is evaluated
  \<open>alpha_n * beta_n\<close> times. The variance of the record returned is at most the variance of
  every evaluated record whose variance is a number, and the record returned is one of the
  evaluated records or the record the sweep started with, whose variance is \<open>DBL_MAX\<close>.

  Nothing is said of a grid point whose variance is not a number. That is every grid point
  of a run of zero cycles, and a grid point where the sum of the squared energies
  overflows, as it does once \<open>V_int\<close> has returned \<open>DBL_MAX\<close> for two particles that
  overlap. The statement is therefore proved of the sweep over any function \<open>run\<close>,
  whatever records it returns, and so of the sweep over \<open>run_MC\<close>.
\<close>

theorem vmc_sweep:
  "let v = vmc_with run s n_cycles out alpha_min alpha_max alpha_n beta_min beta_max beta_n g uninit
   in (\<exists>ls. v_out v = out @ [Str header] @ ls @ [Flush] \<and> count_lines ls = alpha_n * beta_n) \<and>
      count_lines (v_out v) = count_lines out + (alpha_n * beta_n + 1) \<and>
      length (evaluated v) = alpha_n * beta_n \<and>
      (\<forall>r\<in>set (evaluated v). variance r \<noteq> None \<longrightarrow> variance_le (best v) r) \<and>
      (best v = uninit\<lparr>variance := Some DBL_MAX\<rparr> \<or> best v \<in> set (evaluated v))"
proof -
  let ?alphas = "linspace alpha_min alpha_max alpha_n"
  let ?betas = "linspace beta_min beta_max beta_n"
  let ?start = "\<lparr>v_sol = s, v_gen = g, v_out = out @ [Str header],
             best = uninit\<lparr>variance := Some DBL_MAX\<rparr>, evaluated = []\<rparr>"
  let ?grid = "fold (\<lambda>al v. fold (vmc_point run n_cycles) ?betas (v\<lparr>v_sol := (v_sol v)\<lparr>alpha := al\<rparr>\<rparr>))
                  ?alphas ?start"
  let ?v = "vmc_with run s n_cycles out alpha_min alpha_max alpha_n beta_min beta_max beta_n g uninit"
  have v: "?v = ?grid\<lparr>v_out := v_out ?grid @ [Flush]\<rparr>"
    by (simp add: vmc_with_def Let_def)
  have inv0: "sweep_inv (out @ [Str header]) (uninit\<lparr>variance := Some DBL_MAX\<rparr>) ?start"
    by (simp add: sweep_inv_def best_below_def count_lines_def)
  have "sweep_inv (out @ [Str header]) (uninit\<lparr>variance := Some DBL_MAX\<rparr>) ?grid"
    using inv0 by (rule sweep_inv_grid)
  then obtain ls where ls: "v_out ?grid = (out @ [Str header]) @ ls"
      "count_lines ls = length (evaluated ?grid)"
    and bb: "best_below ?grid"
    and org: "best ?grid = uninit\<lparr>variance := Some DBL_MAX\<rparr> \<or> best ?grid \<in> set (evaluated ?grid)"
    unfolding sweep_inv_def by blast
  have len: "length (evaluated ?grid) = alpha_n * beta_n"
    using length_evaluated_grid [of run n_cycles ?betas ?alphas ?start] by simp
  have ev: "evaluated ?v = evaluated ?grid" and be: "best ?v = best ?grid"
    and out: "v_out ?v = out @ [Str header] @ ls @ [Flush]"
    using ls by (simp_all add: v)
  have bb': "best_below ?v"
    using bb by (simp add: best_below_def ev be)
  have p1: "\<exists>ls. v_out ?v = out @ [Str header] @ ls @ [Flush] \<and> count_lines ls = alpha_n * beta_n"
    using out ls(2) len by auto
  have p2: "count_lines (v_out ?v) = count_lines out + (alpha_n * beta_n + 1)"
    using ls(2) len by (simp add: out count_lines_Cons count_lines_Nil newlines_header)
  have p3: "length (evaluated ?v) = alpha_n * beta_n"
    using len by (simp add: ev)
  have p4: "\<forall>r\<in>set (evaluated ?v). variance r \<noteq> None \<longrightarrow> variance_le (best ?v) r"
    using best_below_le [OF bb'] by blast
  have p5: "best ?v = uninit\<lparr>variance := Some DBL_MAX\<rparr> \<or> best ?v \<in> set (evaluated ?v)"
    using org by (simp add: ev be)
  from p1 p2 p3 p4 p5 show ?thesis unfolding Let_def by blast
qed

lemma variance_run_s_1: "variance (fst (run_MC s_1 1 g_w)) = Some 0"
proof -
  have c: "config (sol (run_MC_loop s_1 1 g_w)) = cfg_1"
    using loop_counts [of s_1 1 g_w] by (simp add: s_1_def VMCSolver_new_def)
  show ?thesis
    using finish_exact [of 1 "run_MC_loop s_1 1 g_w"]
    by (simp add: run_MC_def Let_def c cfg_1_def run_s_1)
qed

theorem vmc_sweep_witness:
  "count_lines (v_out (vmc s_1 1 [] (1/2) (1/2) 1 1 1 1 g_w res_junk)) = 2 \<and>
   length (evaluated (vmc s_1 1 [] (1/2) (1/2) 1 1 1 1 g_w res_junk)) = 1 \<and>
   variance (best (vmc s_1 1 [] (1/2) (1/2) 1 1 1 1 g_w res_junk)) = Some 0 \<and>
   variance_le (best (vmc s_1 1 [] (1/2) (1/2) 1 1 1 1 g_w res_junk))
               (hd (evaluated (vmc s_1 1 [] (1/2) (1/2) 1 1 1 1 g_w res_junk)))"
proof -
  let ?v = "vmc s_1 1 [] (1/2) (1/2) 1 1 1 1 g_w res_junk"
  have s: "s_1\<lparr>alpha := 1/2, beta := 1\<rparr> = s_1"
    by (simp add: s_1_def VMCSolver_new_def)
  have e: "evaluated ?v = [fst (run_MC s_1 1 g_w)]"
    by (simp add: vmc_def vmc_with_def Let_def linspace_def vmc_point_fields s)
  have sw: "count_lines (v_out ?v) = 2" "length (evaluated ?v) = 1"
    "\<forall>r\<in>set (evaluated ?v). variance r \<noteq> None \<longrightarrow> variance_le (best ?v) r"
    using vmc_sweep [of run_MC s_1 1 "[]" "1/2" "1/2" 1 1 1 1 g_w res_junk]
    by (simp_all add: Let_def count_lines_Nil vmc_def)
  have mem: "hd (evaluated ?v) \<in> set (evaluated ?v)" "variance (hd (evaluated ?v)) \<noteq> None"
    unfolding e by (simp_all add: variance_run_s_1)
  have h: "variance_le (best ?v) (hd (evaluated ?v))"
    using sw(3) mem by blast
  have "0 < DBL_MAX" by (simp add: DBL_MAX_def)
  then have "variance (best ?v) = Some 0"
    by (simp add: vmc_def vmc_with_def Let_def linspace_def vmc_point_fields s variance_run_s_1
          variance_less_def)
  with sw h show ?thesis by simp
qed

subsection \<open>The two modes at a point of an elliptical trap\<close>

lemma E_local_ana_3: "fst (E_local (s_ana hv) zeros) = 2"
  by (simp add: E_local_def E_local_k_def V_ext_def V_int_def r_k_skewed_def one_body_beta_term_def
        trunc_int_def col_def dot_def zeros_def Let_def s_ana_def cfg_3_def VMCSolver_new_def
        numeral_3_eq_3 numeral_2_eq_2)

lemma Psi_3:
  "Psi (s_num hv) R = exp (- (1/2) * (R (0, 0) * R (0, 0) + R (1, 0) * R (1, 0) + R (2, 0) * R (2, 0)))"
  by (simp add: Psi_def Psi_g_def Psi_f_def s_num_def cfg_3_def VMCSolver_new_def col_def dot_def
        numeral_3_eq_3 numeral_2_eq_2 algebra_simps)

lemma s_num_fields:
  "config (s_num hv) = cfg_3 AnalyticOFF hv"
  by (simp add: s_num_def VMCSolver_new_def)

lemma E_kinetic_body_3:
  "d < 3 \<Longrightarrow> E_kinetic_body 0 d (Ek, zeros, s_num hv)
     = (Ek + 2 * exp (- (hv * hv) / 2), zeros, s_num hv)"
proof -
  assume "d < 3"
  then consider "d = 0" | "d = 1" | "d = 2" by linarith
  then show ?thesis
    by cases (simp_all add: E_kinetic_body_def Let_def s_num_fields cfg_3_def Psi_3 zeros_def fun_eq_iff)
qed

lemma E_kinetic_3:
  "fst (E_kinetic (s_num hv) zeros) = 3 * (1 - exp (- (hv * hv) / 2)) / (hv * hv)"
proof -
  have psi0: "Psi (s_num hv) zeros = 1"
    by (simp add: Psi_3 zeros_def)
  have "E_kinetic_loop (s_num hv) zeros = (- 6 + 6 * exp (- (hv * hv) / 2), zeros, s_num hv)"
    by (simp add: E_kinetic_loop_def Let_def s_num_fields cfg_3_def numeral_3_eq_3 E_kinetic_body_3
          psi0)
  then have "fst (E_kinetic (s_num hv) zeros)
               = - 0.5 * (- 6 + 6 * exp (- (hv * hv) / 2)) * (1 / (hv * hv))"
    by (simp add: E_kinetic_def s_num_fields cfg_3_def)
  also have "\<dots> = 3 * (1 - exp (- (hv * hv) / 2)) / (hv * hv)"
    by (cases "hv = 0") (simp_all add: field_simps)
  finally show ?thesis .
qed


lemma E_local_num_3:
  "fst (E_local (s_num hv) zeros) = 3 * (1 - exp (- (hv * hv) / 2)) / (hv * hv)"
proof -
  have c: "cache_consistent (s_num hv) zeros"
    by (simp add: cache_consistent_def s_num_fields cfg_3_def)
  have k: "snd (E_kinetic (s_num hv) zeros) = (zeros, s_num hv)"
    using c by (rule E_kinetic_restore)
  have psi0: "Psi (s_num hv) zeros = 1"
    by (simp add: Psi_3 zeros_def)
  have vext: "V_ext (s_num hv) zeros = 0"
    by (simp add: V_ext_def Let_def s_num_fields cfg_3_def zeros_def)
  have vint: "V_int (s_num hv) = 0"
    by (simp add: V_int_def Let_def s_num_fields cfg_3_def)
  have "fst (E_local (s_num hv) zeros) = fst (E_kinetic (s_num hv) zeros)"
    using k by (simp add: E_local_def s_num_fields cfg_3_def split_beta psi0 vext vint)
  then show ?thesis by (simp add: E_kinetic_3)
qed

lemma E_local_num_3_le: "fst (E_local (s_num hv) zeros) \<le> 3/2"
proof (cases "hv = 0")
  case True
  then show ?thesis by (simp add: E_local_num_3)
next
  case False
  then have pos: "0 < hv * hv" by (auto simp: zero_less_mult_iff)
  have "1 + (- (hv * hv) / 2) \<le> exp (- (hv * hv) / 2)" by (rule exp_ge_add_one_self)
  then have "3 * (1 - exp (- (hv * hv) / 2)) \<le> 3/2 * (hv * hv)" by simp
  then have "3 * (1 - exp (- (hv * hv) / 2)) / (hv * hv) \<le> 3/2"
    using pos by (simp add: pos_divide_le_eq)
  then show ?thesis by (simp add: E_local_num_3)
qed

text \<open>
  C2. At this configuration the two modes do not agree: for every step \<open>hv\<close> other than
  zero the analytic local energy at the origin is 2 (it follows \<open>beta\<close>: \<open>alpha * (2 + beta)\<close>),
  while the numeric one is \<open>3 * (1 - exp (- hv\<^sup>2 / 2)) / hv\<^sup>2\<close>, at most 3/2 (the wavefunction
  \<open>Psi_g\<close> it differentiates does not depend on \<open>beta\<close>). They differ by at least 1/2 however
  small the step is.
\<close>

theorem numeric_analytic_gap:
  assumes "hv \<noteq> 0"
  shows "fst (E_local (s_ana hv) zeros) = 2 \<and>
         fst (E_local (s_num hv) zeros) = 3 * (1 - exp (- (hv * hv) / 2)) / (hv * hv) \<and>
         fst (E_local (s_num hv) zeros) \<le> 3/2 \<and>
         1/2 \<le> \<bar>fst (E_local (s_ana hv) zeros) - fst (E_local (s_num hv) zeros)\<bar>"
proof -
  have ana: "fst (E_local (s_ana hv) zeros) = 2" by (rule E_local_ana_3)
  have num: "fst (E_local (s_num hv) zeros) = 3 * (1 - exp (- (hv * hv) / 2)) / (hv * hv)"
    by (rule E_local_num_3)
  have le: "fst (E_local (s_num hv) zeros) \<le> 3/2" by (rule E_local_num_3_le)
  from ana le have "1/2 \<le> \<bar>fst (E_local (s_ana hv) zeros) - fst (E_local (s_num hv) zeros)\<bar>"
    by linarith
  with ana num le show ?thesis by blast
qed

theorem numeric_analytic_gap_witness:
  "fst (E_local (s_ana (1/1000)) zeros) = 2 \<and>
   fst (E_local (s_num (1/1000)) zeros) \<le> 3/2 \<and>
   1/2 \<le> \<bar>fst (E_local (s_ana (1/1000)) zeros) - fst (E_local (s_num (1/1000)) zeros)\<bar>"
proof -
  have "(1/1000 :: real) \<noteq> 0" by simp
  from numeric_analytic_gap [OF this] show ?thesis by blast
qed

text \<open>So no bound proportional to the square of the step holds between the two modes.\<close>

lemma numeric_analytic_no_quadratic_bound:
  "\<not> (\<exists>C. \<forall>hv. 0 < hv \<longrightarrow>
          \<bar>fst (E_local (s_ana hv) zeros) - fst (E_local (s_num hv) zeros)\<bar> \<le> C * (hv * hv))"
proof
  assume "\<exists>C. \<forall>hv. 0 < hv \<longrightarrow>
          \<bar>fst (E_local (s_ana hv) zeros) - fst (E_local (s_num hv) zeros)\<bar> \<le> C * (hv * hv)"
  then obtain C where C: "\<And>hv. 0 < hv \<Longrightarrow>
          \<bar>fst (E_local (s_ana hv) zeros) - fst (E_local (s_num hv) zeros)\<bar> \<le> C * (hv * hv)"
    by blast
  define c where "c = max C 1"
  define hv where "hv = sqrt (1 / (4 * c))"
  have cpos: "0 < c" by (simp add: c_def)
  then have hpos: "0 < hv" by (simp add: hv_def)
  have sq: "hv * hv = 1 / (4 * c)"
    using cpos by (simp add: hv_def)
  have "C * (hv * hv) \<le> c * (hv * hv)"
    by (intro mult_right_mono) (simp_all add: c_def)
  also have "\<dots> = 1/4" using cpos by (simp add: sq)
  finally have "C * (hv * hv) \<le> 1/4" .
  moreover have "1/2 \<le> \<bar>fst (E_local (s_ana hv) zeros) - fst (E_local (s_num hv) zeros)\<bar>"
    using E_local_num_3_le [of hv] E_local_ana_3 [of hv] by linarith
  ultimately show False using C [OF hpos] by linarith
qed

end
